theory Spec2Isabelle
  imports Main "HOL-Library.Word" "HOL-Library.Sublist"
begin

unbundle bit_operations_syntax

section \<open>Data model of KeyUtil.cpp\<close>

text \<open>
  A \<open>KeyBuffer\<close> is a vector of bytes. \<open>std::string\<close> values that hold raw bytes (the key
  reference) are byte lists as well; strings that hold text (paths, key names, log
  messages) are \<open>string\<close>. File descriptors, key serials and return codes are C ints and
  are only compared with \<open>-1\<close> and \<open>0\<close>, so they are \<open>int\<close>.
\<close>

type_synonym byte = "8 word"
type_synonym KeyBuffer = "byte list"

text \<open>
  Constants of \<open>linux/fscrypt.h\<close>, \<open>errno.h\<close>, \<open>keyutils.h\<close> and \<open>openssl/sha.h\<close>.
  \<open>FSCRYPT_ADD_KEY_FLAG_HW_WRAPPED\<close> is the header's \<open>__FSCRYPT_ADD_KEY_FLAG_HW_WRAPPED\<close>.
\<close>

definition FSCRYPT_MAX_KEY_SIZE :: nat where "FSCRYPT_MAX_KEY_SIZE = 64"
definition FSCRYPT_KEY_DESCRIPTOR_SIZE :: nat where "FSCRYPT_KEY_DESCRIPTOR_SIZE = 8"
definition FSCRYPT_KEY_IDENTIFIER_SIZE :: nat where "FSCRYPT_KEY_IDENTIFIER_SIZE = 16"
definition SHA512_DIGEST_LENGTH :: nat where "SHA512_DIGEST_LENGTH = 64"
definition FSCRYPT_KEY_SPEC_TYPE_DESCRIPTOR :: "32 word" where
  "FSCRYPT_KEY_SPEC_TYPE_DESCRIPTOR = 1"
definition FSCRYPT_KEY_SPEC_TYPE_IDENTIFIER :: "32 word" where
  "FSCRYPT_KEY_SPEC_TYPE_IDENTIFIER = 2"
definition FSCRYPT_KEY_REMOVAL_STATUS_FLAG_FILES_BUSY :: "32 word" where
  "FSCRYPT_KEY_REMOVAL_STATUS_FLAG_FILES_BUSY = 1"
definition FSCRYPT_KEY_REMOVAL_STATUS_FLAG_OTHER_USERS :: "32 word" where
  "FSCRYPT_KEY_REMOVAL_STATUS_FLAG_OTHER_USERS = 2"
definition FSCRYPT_KEY_STATUS_INCOMPLETELY_REMOVED :: "32 word" where
  "FSCRYPT_KEY_STATUS_INCOMPLETELY_REMOVED = 3"
definition FSCRYPT_ADD_KEY_FLAG_HW_WRAPPED :: "32 word" where
  "FSCRYPT_ADD_KEY_FLAG_HW_WRAPPED = 1"
definition ENOTTY :: int where "ENOTTY = 25"
definition EFAULT :: int where "EFAULT = 14"
definition KEY_SPEC_SESSION_KEYRING :: int where "KEY_SPEC_SESSION_KEYRING = - 3"

text \<open>\<open>KeyGeneration\<close>, in the field order that \<open>neverGen\<close> initialises.\<close>

record KeyGeneration =
  keysize :: nat
  allow_gen :: bool
  use_hw_wrapped_key :: bool

text \<open>
  \<open>EncryptionOptions\<close> and \<open>EncryptionPolicy\<close>. The options are declared in libfscrypt;
  the record has the two fields that this file reads.
\<close>

record EncryptionOptions =
  version :: int
  opt_use_hw_wrapped_key :: bool

record EncryptionPolicy =
  options :: EncryptionOptions
  key_raw_ref :: "byte list"

text \<open>
  The kernel structures. \<open>spec_u\<close> is the 32-byte union of a key specifier: the
  descriptor is its first 8 bytes and the identifier its first 16.
\<close>

record fscrypt_key_specifier =
  spec_type :: "32 word"
  spec_u :: "byte list"

record fscrypt_key =
  fk_mode :: "32 word"
  fk_raw :: "byte list"
  fk_size :: "32 word"

record fscrypt_add_key_arg =
  key_spec :: fscrypt_key_specifier
  raw_size :: "32 word"
  arg_flags :: "32 word"
  raw :: "byte list"

definition zero_key_specifier :: fscrypt_key_specifier where
  "zero_key_specifier = \<lparr>spec_type = 0, spec_u = replicate 32 0\<rparr>"

definition zero_fscrypt_key :: fscrypt_key where
  "zero_fscrypt_key = \<lparr>fk_mode = 0, fk_raw = replicate FSCRYPT_MAX_KEY_SIZE 0, fk_size = 0\<rparr>"

definition zero_add_key_arg :: "nat \<Rightarrow> fscrypt_add_key_arg" where
  "zero_add_key_arg n =
     \<lparr>key_spec = zero_key_specifier, raw_size = 0, arg_flags = 0, raw = replicate n 0\<rparr>"

text \<open>
  Writing bytes into the front of a fixed-size byte array leaves its size as it is;
  \<open>memcpy(dst, src, n)\<close> writes the first \<open>n\<close> bytes of \<open>src\<close>.
\<close>

definition write_into :: "byte list \<Rightarrow> byte list \<Rightarrow> byte list" where
  "write_into dst src = take (length dst) src @ drop (length src) dst"

definition memcpy :: "byte list \<Rightarrow> byte list \<Rightarrow> nat \<Rightarrow> byte list" where
  "memcpy dst src n = write_into dst (take n src)"

section \<open>The world outside the program\<close>

text \<open>
  Everything the functions do to the outside is recorded, in order, in a trace of events:
  log lines, system calls and calls of the collaborators of \<open>KeyStorage.h\<close> and
  \<open>Utils.h\<close>, each with the reply it got. A log line is its severity and the sequence of
  operands of \<open><<\<close>. Closing a descriptor and taking the keyring mutex are not recorded.
  The type \<open>'auth\<close> is \<open>KeyAuthentication\<close>, which is declared in \<open>KeyStorage.h\<close> and only
  passed on to the collaborators.
\<close>

datatype severity = DEBUG | INFO | WARNING | ERROR

datatype frag = S string | N int

datatype 'auth event =
    Log severity "frag list"
  | PLog severity "frag list"
  | Open string int
  | IoctlProbe int int
  | IoctlAddKey int fscrypt_add_key_arg int "byte list"
  | IoctlRemoveKey int fscrypt_key_specifier int "32 word"
  | IoctlGetKeyStatus int fscrypt_key_specifier int "32 word"
  | KeyctlSearch int string string int
  | AddKey string string fscrypt_key int int
  | KeyctlUnlink int int int
  | SleepFor int
  | SpawnThread fscrypt_key_specifier string string
  | ReadRandom nat int "byte list"
  | GenerateWrapped bool KeyBuffer
  | PathExists string bool
  | RetrieveKey string 'auth bool KeyBuffer
  | StoreKey string string 'auth KeyBuffer bool

text \<open>
  The program's state is the trace and the function-local static of
  \<open>isFsKeyringSupported\<close> (\<open>None\<close> until the first call).
\<close>

record 'auth world =
  trace :: "'auth event list"
  supported :: "bool option"

text \<open>
  The platform gives the reply to every call. A reply may depend on everything that
  happened before, so each one takes the trace so far. \<open>SHA512\<close> is the hash of openssl.
  \<open>on_ioctl_add_key\<close> replies with the return code and the identifier the kernel computed;
  \<open>on_ioctl_remove_key\<close> with the return code and \<open>removal_status_flags\<close>;
  \<open>on_ioctl_get_key_status\<close> with the return code and \<open>status\<close>; \<open>on_ioctl_probe\<close> with
  the \<open>errno\<close> left by the ioctl on a null argument. A collaborator with an output
  parameter \<open>KeyBuffer*\<close> gets the buffer's content and replies with its new content.
\<close>

record 'auth platform =
  SHA512 :: "byte list \<Rightarrow> byte list"
  on_getpid :: int
  on_open :: "'auth event list \<Rightarrow> string \<Rightarrow> int"
  on_ioctl_probe :: "'auth event list \<Rightarrow> int \<Rightarrow> int"
  on_ioctl_add_key :: "'auth event list \<Rightarrow> int \<Rightarrow> fscrypt_add_key_arg \<Rightarrow> int \<times> byte list"
  on_ioctl_remove_key :: "'auth event list \<Rightarrow> int \<Rightarrow> fscrypt_key_specifier \<Rightarrow> int \<times> 32 word"
  on_ioctl_get_key_status ::
    "'auth event list \<Rightarrow> int \<Rightarrow> fscrypt_key_specifier \<Rightarrow> int \<times> 32 word"
  on_keyctl_search :: "'auth event list \<Rightarrow> int \<Rightarrow> string \<Rightarrow> string \<Rightarrow> int"
  on_add_key :: "'auth event list \<Rightarrow> string \<Rightarrow> string \<Rightarrow> fscrypt_key \<Rightarrow> int \<Rightarrow> int"
  on_keyctl_unlink :: "'auth event list \<Rightarrow> int \<Rightarrow> int \<Rightarrow> int"
  on_ReadRandomBytes :: "'auth event list \<Rightarrow> nat \<Rightarrow> int \<times> byte list"
  on_generateWrappedStorageKey :: "'auth event list \<Rightarrow> KeyBuffer \<Rightarrow> bool \<times> KeyBuffer"
  on_pathExists :: "'auth event list \<Rightarrow> string \<Rightarrow> bool"
  on_retrieveKey :: "'auth event list \<Rightarrow> string \<Rightarrow> 'auth \<Rightarrow> KeyBuffer \<Rightarrow> bool \<times> KeyBuffer"
  on_storeKeyAtomically ::
    "'auth event list \<Rightarrow> string \<Rightarrow> string \<Rightarrow> 'auth \<Rightarrow> KeyBuffer \<Rightarrow> bool"

definition emit :: "'auth event \<Rightarrow> 'auth world \<Rightarrow> 'auth world" where
  "emit e w = w\<lparr>trace := trace w @ [e]\<rparr>"

definition LOG :: "severity \<Rightarrow> frag list \<Rightarrow> 'auth world \<Rightarrow> 'auth world" where
  "LOG sev msg w = emit (Log sev msg) w"

definition PLOG :: "severity \<Rightarrow> frag list \<Rightarrow> 'auth world \<Rightarrow> 'auth world" where
  "PLOG sev msg w = emit (PLog sev msg) w"

text \<open>The events a call added to the trace.\<close>

definition added :: "'auth world \<Rightarrow> 'auth world \<Rightarrow> 'auth event list" where
  "added w w' = drop (length (trace w)) (trace w')"

section \<open>System calls and collaborators\<close>

definition sys_open :: "'auth platform \<Rightarrow> string \<Rightarrow> 'auth world \<Rightarrow> int \<times> 'auth world" where
  "sys_open p path w = (let fd = on_open p (trace w) path in (fd, emit (Open path fd) w))"

definition ioctl_probe :: "'auth platform \<Rightarrow> int \<Rightarrow> 'auth world \<Rightarrow> int \<times> 'auth world" where
  "ioctl_probe p fd w =
     (let errno = on_ioctl_probe p (trace w) fd in (errno, emit (IoctlProbe fd errno) w))"

text \<open>
  \<open>FS_IOC_ADD_ENCRYPTION_KEY\<close>: when the call succeeds on an identifier-typed specifier,
  the kernel writes the identifier it computed into the argument.
\<close>

definition ioctl_add_key ::
  "'auth platform \<Rightarrow> int \<Rightarrow> fscrypt_add_key_arg \<Rightarrow> 'auth world
     \<Rightarrow> (int \<times> fscrypt_add_key_arg) \<times> 'auth world" where
  "ioctl_add_key p fd arg w =
     (let (rc, ident) = on_ioctl_add_key p (trace w) fd arg;
          arg' = (if rc = 0 \<and> spec_type (key_spec arg) = FSCRYPT_KEY_SPEC_TYPE_IDENTIFIER
                  then arg\<lparr>key_spec := (key_spec arg)
                         \<lparr>spec_u := memcpy (spec_u (key_spec arg)) ident
                                      FSCRYPT_KEY_IDENTIFIER_SIZE\<rparr>\<rparr>
                  else arg)
      in ((rc, arg'), emit (IoctlAddKey fd arg rc ident) w))"

definition ioctl_remove_key ::
  "'auth platform \<Rightarrow> int \<Rightarrow> fscrypt_key_specifier \<Rightarrow> 'auth world
     \<Rightarrow> (int \<times> 32 word) \<times> 'auth world" where
  "ioctl_remove_key p fd spec w =
     (let (rc, flags) = on_ioctl_remove_key p (trace w) fd spec
      in ((rc, flags), emit (IoctlRemoveKey fd spec rc flags) w))"

definition ioctl_get_key_status ::
  "'auth platform \<Rightarrow> int \<Rightarrow> fscrypt_key_specifier \<Rightarrow> 'auth world
     \<Rightarrow> (int \<times> 32 word) \<times> 'auth world" where
  "ioctl_get_key_status p fd spec w =
     (let (rc, status) = on_ioctl_get_key_status p (trace w) fd spec
      in ((rc, status), emit (IoctlGetKeyStatus fd spec rc status) w))"

definition keyctl_search ::
  "'auth platform \<Rightarrow> int \<Rightarrow> string \<Rightarrow> string \<Rightarrow> 'auth world \<Rightarrow> int \<times> 'auth world" where
  "keyctl_search p keyring type desc w =
     (let r = on_keyctl_search p (trace w) keyring type desc
      in (r, emit (KeyctlSearch keyring type desc r) w))"

definition add_key ::
  "'auth platform \<Rightarrow> string \<Rightarrow> string \<Rightarrow> fscrypt_key \<Rightarrow> int \<Rightarrow> 'auth world
     \<Rightarrow> int \<times> 'auth world" where
  "add_key p type desc payload keyring w =
     (let r = on_add_key p (trace w) type desc payload keyring
      in (r, emit (AddKey type desc payload keyring r) w))"

definition keyctl_unlink ::
  "'auth platform \<Rightarrow> int \<Rightarrow> int \<Rightarrow> 'auth world \<Rightarrow> int \<times> 'auth world" where
  "keyctl_unlink p key keyring w =
     (let r = on_keyctl_unlink p (trace w) key keyring
      in (r, emit (KeyctlUnlink key keyring r) w))"

definition sleep_for :: "int \<Rightarrow> 'auth world \<Rightarrow> 'auth world" where
  "sleep_for ms w = emit (SleepFor ms) w"

text \<open>\<open>ReadRandomBytes(n, buf)\<close> writes into a buffer of \<open>n\<close> bytes.\<close>

definition ReadRandomBytes ::
  "'auth platform \<Rightarrow> KeyBuffer \<Rightarrow> 'auth world \<Rightarrow> (int \<times> KeyBuffer) \<times> 'auth world" where
  "ReadRandomBytes p buf w =
     (let (rc, bytes) = on_ReadRandomBytes p (trace w) (length buf)
      in ((rc, write_into buf bytes), emit (ReadRandom (length buf) rc bytes) w))"

definition generateWrappedStorageKey ::
  "'auth platform \<Rightarrow> KeyBuffer \<Rightarrow> 'auth world \<Rightarrow> (bool \<times> KeyBuffer) \<times> 'auth world" where
  "generateWrappedStorageKey p key w =
     (let (ok, key') = on_generateWrappedStorageKey p (trace w) key
      in ((ok, key'), emit (GenerateWrapped ok key') w))"




section \<open>Key generation\<close>

definition neverGen :: KeyGeneration where
  "neverGen = \<lparr>keysize = 0, allow_gen = False, use_hw_wrapped_key = False\<rparr>"

text \<open>
  Functions with an output parameter \<open>KeyBuffer* key\<close> return the buffer's content next to
  their \<open>bool\<close>.
\<close>

definition randomKey ::
  "'auth platform \<Rightarrow> nat \<Rightarrow> 'auth world \<Rightarrow> (bool \<times> KeyBuffer) \<times> 'auth world" where
  "randomKey p sz w =
     (let ((rc, key), w1) = ReadRandomBytes p (replicate sz 0) w
      in if rc \<noteq> 0 then ((False, key), LOG ERROR [S ''Random read failed''] w1)
         else ((True, key), w1))"

definition generateStorageKey ::
  "'auth platform \<Rightarrow> KeyGeneration \<Rightarrow> KeyBuffer \<Rightarrow> 'auth world
     \<Rightarrow> (bool \<times> KeyBuffer) \<times> 'auth world" where
  "generateStorageKey p gen key w =
     (if \<not> allow_gen gen
      then ((False, key), LOG ERROR [S ''Generating storage key not allowed''] w)
      else if use_hw_wrapped_key gen
      then (if keysize gen \<noteq> FSCRYPT_MAX_KEY_SIZE
            then ((False, key),
                  LOG ERROR [S ''Cannot generate a wrapped key '', N (int (keysize gen)),
                             S '' bytes long''] w)
            else generateWrappedStorageKey p key
                   (LOG DEBUG [S ''Generating wrapped storage key''] w))
      else randomKey p (keysize gen) (LOG DEBUG [S ''Generating standard storage key''] w))"

section \<open>Keyring capability\<close>

definition isFsKeyringSupportedImpl :: "'auth platform \<Rightarrow> 'auth world \<Rightarrow> bool \<times> 'auth world" where
  "isFsKeyringSupportedImpl p w =
     (let (fd, w1) = sys_open p ''/data'' w;
          (errno, w2) = ioctl_probe p fd w1
      in if errno = ENOTTY
         then (False,
               LOG INFO
                 [S ''Kernel doesn't support FS_IOC_ADD_ENCRYPTION_KEY.  Falling back to session keyring'']
                 w2)
         else let w3 = (if errno \<noteq> EFAULT
                        then PLOG WARNING [S ''Unexpected error from FS_IOC_ADD_ENCRYPTION_KEY''] w2
                        else w2)
              in (True, LOG DEBUG [S ''Detected support for FS_IOC_ADD_ENCRYPTION_KEY''] w3))"

definition isFsKeyringSupported :: "'auth platform \<Rightarrow> 'auth world \<Rightarrow> bool \<times> 'auth world" where
  "isFsKeyringSupported p w =
     (case supported w of
        Some b \<Rightarrow> (b, w)
      | None \<Rightarrow> (let (b, w1) = isFsKeyringSupportedImpl p w in (b, w1\<lparr>supported := Some b\<rparr>)))"

section \<open>Key references and names\<close>

text \<open>
  \<open>SHA512_Init\<close>, \<open>SHA512_Update\<close> and \<open>SHA512_Final\<close> leave the digest of the data in a
  buffer of \<open>SHA512_DIGEST_LENGTH\<close> bytes. Key buffers are shorter than \<open>2^31\<close> bytes, so the
  \<open>int length\<close> of \<open>generateKeyRef\<close> is the number it was given.
\<close>

definition SHA512_Final :: "'auth platform \<Rightarrow> byte list \<Rightarrow> byte list" where
  "SHA512_Final p data = write_into (replicate SHA512_DIGEST_LENGTH 0) (SHA512 p data)"

definition generateKeyRef :: "'auth platform \<Rightarrow> byte list \<Rightarrow> nat \<Rightarrow> byte list" where
  "generateKeyRef p key len =
     (let key_ref1 = SHA512_Final p (take len key);
          key_ref2 = SHA512_Final p (take SHA512_DIGEST_LENGTH key_ref1)
      in take FSCRYPT_KEY_DESCRIPTOR_SIZE key_ref2)"

definition fillKey ::
  "KeyBuffer \<Rightarrow> fscrypt_key \<Rightarrow> 'auth world \<Rightarrow> (bool \<times> fscrypt_key) \<times> 'auth world" where
  "fillKey key fs_key w =
     (if length key \<noteq> FSCRYPT_MAX_KEY_SIZE
      then ((False, fs_key), LOG ERROR [S ''Wrong size key '', N (int (length key))] w)
      else ((True, fs_key\<lparr>fk_mode := 0,
                          fk_raw := memcpy (fk_raw fs_key) key (length key),
                          fk_size := of_nat (length key)\<rparr>), w))"

definition NAME_PREFIXES :: "string list" where
  "NAME_PREFIXES = [''ext4'', ''f2fs'', ''fscrypt'']"

definition hex_digit :: "nat \<Rightarrow> char" where
  "hex_digit n = ''0123456789abcdef'' ! (n mod 16)"

definition keyrefstring :: "byte list \<Rightarrow> string" where
  "keyrefstring raw_ref =
     concat (map (\<lambda>i. [hex_digit (unat i div 16), hex_digit (unat i mod 16)]) raw_ref)"

definition buildLegacyKeyName :: "string \<Rightarrow> byte list \<Rightarrow> string" where
  "buildLegacyKeyName pfx raw_ref = pfx @ '':'' @ keyrefstring raw_ref"

text \<open>
  \<open>keyctl_search\<close> returns a \<open>long\<close>; storing it in a \<open>key_serial_t\<close>, or passing it where one
  is expected, narrows it to 32 bits.
\<close>

definition key_serial_t :: "int \<Rightarrow> int" where
  "key_serial_t x = sint (word_of_int x :: 32 word)"

definition fscryptKeyring :: "'auth platform \<Rightarrow> 'auth world \<Rightarrow> (bool \<times> int) \<times> 'auth world" where
  "fscryptKeyring p w =
     (let (found, w1) = keyctl_search p KEY_SPEC_SESSION_KEYRING ''keyring'' ''fscrypt'' w;
          device_keyring = key_serial_t found
      in if device_keyring = - 1
         then ((False, device_keyring), PLOG ERROR [S ''Unable to find device keyring''] w1)
         else ((True, device_keyring), w1))"

section \<open>The legacy session keyring\<close>

text \<open>The loop of \<open>installKeyLegacy\<close> over the name prefixes that are left.\<close>

fun installKeyLegacy_loop ::
  "'auth platform \<Rightarrow> fscrypt_key \<Rightarrow> byte list \<Rightarrow> int \<Rightarrow> string list \<Rightarrow> 'auth world
     \<Rightarrow> bool \<times> 'auth world" where
  "installKeyLegacy_loop p fs_key raw_ref device_keyring [] w = (True, w)"
| "installKeyLegacy_loop p fs_key raw_ref device_keyring (name_prefix # rest) w =
     (let ref = buildLegacyKeyName name_prefix raw_ref;
          (key_id, w1) = add_key p ''logon'' ref fs_key device_keyring w
      in if key_id = - 1
         then (False,
               PLOG ERROR [S ''Failed to insert key into keyring '', N device_keyring] w1)
         else installKeyLegacy_loop p fs_key raw_ref device_keyring rest
                (LOG DEBUG [S ''Added key '', N key_id, S '' ('', S ref, S '') to keyring '',
                            N device_keyring, S '' in process '', N (on_getpid p)] w1))"

definition installKeyLegacy ::
  "'auth platform \<Rightarrow> KeyBuffer \<Rightarrow> byte list \<Rightarrow> 'auth world \<Rightarrow> bool \<times> 'auth world" where
  "installKeyLegacy p key raw_ref w =
     (let ((filled, fs_key), w1) = fillKey key zero_fscrypt_key w
      in if \<not> filled then (False, w1)
         else let ((found, device_keyring), w2) = fscryptKeyring p w1
              in if \<not> found then (False, w2)
                 else installKeyLegacy_loop p fs_key raw_ref device_keyring NAME_PREFIXES w2)"

text \<open>The loop of \<open>evictKeyLegacy\<close>, with the value of \<open>success\<close> so far.\<close>

fun evictKeyLegacy_loop ::
  "'auth platform \<Rightarrow> byte list \<Rightarrow> int \<Rightarrow> bool \<Rightarrow> string list \<Rightarrow> 'auth world
     \<Rightarrow> bool \<times> 'auth world" where
  "evictKeyLegacy_loop p raw_ref device_keyring success [] w = (success, w)"
| "evictKeyLegacy_loop p raw_ref device_keyring success (name_prefix # rest) w =
     (let ref = buildLegacyKeyName name_prefix raw_ref;
          (key_serial, w1) = keyctl_search p device_keyring ''logon'' ref w;
          (rc, w2) = keyctl_unlink p (key_serial_t key_serial) device_keyring w1
      in if rc \<noteq> 0
         then evictKeyLegacy_loop p raw_ref device_keyring False rest
                (PLOG ERROR [S ''Failed to unlink key with serial '', N key_serial,
                             S '' ref '', S ref] w2)
         else evictKeyLegacy_loop p raw_ref device_keyring success rest
                (LOG DEBUG [S ''Unlinked key with serial '', N key_serial,
                            S '' ref '', S ref] w2))"

definition evictKeyLegacy ::
  "'auth platform \<Rightarrow> byte list \<Rightarrow> 'auth world \<Rightarrow> bool \<times> 'auth world" where
  "evictKeyLegacy p raw_ref w =
     (let ((found, device_keyring), w1) = fscryptKeyring p w
      in if \<not> found then (False, w1)
         else evictKeyLegacy_loop p raw_ref device_keyring True NAME_PREFIXES w1)"

section \<open>Key specifiers\<close>

text \<open>
  \<open>buildKeySpecifier\<close> writes through \<open>spec\<close>; the specifier after the call is returned
  next to the \<open>bool\<close>.
\<close>

definition buildKeySpecifier ::
  "fscrypt_key_specifier \<Rightarrow> EncryptionPolicy \<Rightarrow> 'auth world
     \<Rightarrow> (bool \<times> fscrypt_key_specifier) \<times> 'auth world" where
  "buildKeySpecifier spec policy w =
     (if version (options policy) = 1
      then (if length (key_raw_ref policy) \<noteq> FSCRYPT_KEY_DESCRIPTOR_SIZE
            then ((False, spec),
                  LOG ERROR [S ''Invalid key specifier size for v1 encryption policy: '',
                             N (int (length (key_raw_ref policy)))] w)
            else ((True, spec\<lparr>spec_type := FSCRYPT_KEY_SPEC_TYPE_DESCRIPTOR,
                              spec_u := memcpy (spec_u spec) (key_raw_ref policy)
                                          FSCRYPT_KEY_DESCRIPTOR_SIZE\<rparr>), w))
      else if version (options policy) = 2
      then (if length (key_raw_ref policy) \<noteq> FSCRYPT_KEY_IDENTIFIER_SIZE
            then ((False, spec),
                  LOG ERROR [S ''Invalid key specifier size for v2 encryption policy: '',
                             N (int (length (key_raw_ref policy)))] w)
            else ((True, spec\<lparr>spec_type := FSCRYPT_KEY_SPEC_TYPE_IDENTIFIER,
                              spec_u := memcpy (spec_u spec) (key_raw_ref policy)
                                          FSCRYPT_KEY_IDENTIFIER_SIZE\<rparr>), w))
      else ((False, spec),
            LOG ERROR [S ''Invalid encryption policy version: '',
                       N (version (options policy))] w))"

section \<open>Installing a key\<close>

text \<open>
  \<open>installKey\<close> writes through \<open>policy\<close>; the policy after the call is returned next to the
  \<open>bool\<close>. \<open>installKey_ioctl\<close> is the part of \<open>installKey\<close> after its \<open>switch\<close>.
\<close>

definition installKey_ioctl ::
  "'auth platform \<Rightarrow> string \<Rightarrow> EncryptionOptions \<Rightarrow> KeyBuffer \<Rightarrow> fscrypt_add_key_arg
     \<Rightarrow> EncryptionPolicy \<Rightarrow> 'auth world \<Rightarrow> (bool \<times> EncryptionPolicy) \<times> 'auth world" where
  "installKey_ioctl p mountpoint opts key arg0 policy w =
     (let arg1 = (if opt_use_hw_wrapped_key opts
                  then arg0\<lparr>arg_flags := arg_flags arg0 OR FSCRYPT_ADD_KEY_FLAG_HW_WRAPPED\<rparr>
                  else arg0);
          arg2 = arg1\<lparr>raw_size := of_nat (length key),
                      raw := memcpy (raw arg1) key (length key)\<rparr>;
          (fd, w1) = sys_open p mountpoint w
      in if fd = - 1
         then ((False, policy),
               PLOG ERROR [S ''Failed to open '', S mountpoint, S '' to install key''] w1)
         else let ((rc, arg3), w2) = ioctl_add_key p fd arg2 w1
              in if rc \<noteq> 0
                 then ((False, policy),
                       PLOG ERROR [S ''Failed to install fscrypt key to '', S mountpoint] w2)
                 else let policy' =
                            (if spec_type (key_spec arg3) = FSCRYPT_KEY_SPEC_TYPE_IDENTIFIER
                             then policy\<lparr>key_raw_ref :=
                                    take FSCRYPT_KEY_IDENTIFIER_SIZE (spec_u (key_spec arg3))\<rparr>
                             else policy)
                      in ((True, policy'),
                          LOG DEBUG [S ''Installed fscrypt key with ref '',
                                     S (keyrefstring (key_raw_ref policy')), S '' to '',
                                     S mountpoint] w2))"

definition installKey ::
  "'auth platform \<Rightarrow> string \<Rightarrow> EncryptionOptions \<Rightarrow> KeyBuffer \<Rightarrow> EncryptionPolicy
     \<Rightarrow> 'auth world \<Rightarrow> (bool \<times> EncryptionPolicy) \<times> 'auth world" where
  "installKey p mountpoint opts key policy0 w =
     (let policy1 = policy0\<lparr>options := opts\<rparr>;
          arg = zero_add_key_arg (length key)
      in if version opts = 1
         then let policy2 =
                    (if opt_use_hw_wrapped_key opts
                     then policy1\<lparr>key_raw_ref := generateKeyRef p key (length key div 2)\<rparr>
                     else policy1\<lparr>key_raw_ref := generateKeyRef p key (length key)\<rparr>);
                  (sup, w1) = isFsKeyringSupported p w
              in if \<not> sup
                 then let (ok, w2) = installKeyLegacy p key (key_raw_ref policy2) w1
                      in ((ok, policy2), w2)
                 else let ((built, spec), w2) = buildKeySpecifier (key_spec arg) policy2 w1
                      in if \<not> built then ((False, policy2), w2)
                         else installKey_ioctl p mountpoint opts key
                                (arg\<lparr>key_spec := spec\<rparr>) policy2 w2
         else if version opts = 2
         then installKey_ioctl p mountpoint opts key
                (arg\<lparr>key_spec := (key_spec arg)
                        \<lparr>spec_type := FSCRYPT_KEY_SPEC_TYPE_IDENTIFIER\<rparr>\<rparr>) policy1 w
         else ((False, policy1),
               LOG ERROR [S ''Invalid encryption policy version: '', N (version opts)] w))"

section \<open>Evicting a key\<close>

text \<open>
  The \<open>while\<close> loop of \<open>waitForBusyFiles\<close>, from the values of \<open>wait_time\<close> and
  \<open>total_wait_time\<close> at the loop's head. Its result is \<open>None\<close> when the loop runs forever.
\<close>

partial_function (option) waitForBusyFiles_loop ::
  "'auth platform \<Rightarrow> int \<Rightarrow> fscrypt_key_specifier \<Rightarrow> string \<Rightarrow> string \<Rightarrow> int \<Rightarrow> int
     \<Rightarrow> 'auth world \<Rightarrow> 'auth world option" where
  "waitForBusyFiles_loop p fd kspec ref mountpoint wait_time total0 w =
     (if wait_time \<le> 51200
      then let total_wait_time = total0 + wait_time;
               w1 = sleep_for wait_time w;
               ((rc, status), w2) = ioctl_get_key_status p fd kspec w1
           in if rc \<noteq> 0
              then Some (PLOG ERROR [S ''Failed to get status for fscrypt key with ref '', S ref,
                                     S '' from '', S mountpoint] w2)
              else if status \<noteq> FSCRYPT_KEY_STATUS_INCOMPLETELY_REMOVED
              then Some (LOG DEBUG
                           [S ''Key status changed, cancelling busy file cleanup for key with ref '',
                            S ref, S ''.''] w2)
              else let ((rc', flags), w3) = ioctl_remove_key p fd kspec w2
                   in if rc' \<noteq> 0
                      then Some (PLOG ERROR
                                   [S ''Failed to clean up busy files for fscrypt key with ref '',
                                    S ref, S '' from '', S mountpoint] w3)
                      else if flags AND FSCRYPT_KEY_REMOVAL_STATUS_FLAG_OTHER_USERS \<noteq> 0
                      then waitForBusyFiles_loop p fd kspec ref mountpoint (wait_time * 2)
                             total_wait_time
                             (LOG WARNING [S ''Files still open after waiting '',
                                           N total_wait_time, S ''ms.  Key with ref '', S ref,
                                           S '' still has unlocked files!'']
                               (LOG ERROR [S ''Unexpected case: key with ref '', S ref,
                                           S '' is still added by other users!''] w3))
                      else if flags AND FSCRYPT_KEY_REMOVAL_STATUS_FLAG_FILES_BUSY = 0
                      then Some (LOG INFO
                                   [S ''Successfully cleaned up busy files for key with ref '',
                                    S ref, S ''.  After waiting '', N total_wait_time,
                                    S ''ms.''] w3)
                      else waitForBusyFiles_loop p fd kspec ref mountpoint (wait_time * 2)
                             total_wait_time
                             (LOG WARNING [S ''Files still open after waiting '',
                                           N total_wait_time, S ''ms.  Key with ref '', S ref,
                                           S '' still has unlocked files!''] w3)
      else Some (LOG ERROR
                   [S ''Waiting for files to close never completed.  Files using key with ref '',
                    S ref, S '' were not locked!''] w))"

definition waitForBusyFiles ::
  "'auth platform \<Rightarrow> fscrypt_key_specifier \<Rightarrow> string \<Rightarrow> string \<Rightarrow> 'auth world
     \<Rightarrow> 'auth world option" where
  "waitForBusyFiles p kspec ref mountpoint w =
     (let (fd, w1) = sys_open p mountpoint w
      in if fd = - 1
         then Some (PLOG ERROR [S ''Failed to open '', S mountpoint, S '' to evict key''] w1)
         else waitForBusyFiles_loop p fd kspec ref mountpoint 3200 0 w1)"

text \<open>
  \<open>evictKey\<close> starts \<open>waitForBusyFiles\<close> on a detached thread; the trace records the start
  with the thread's arguments, and the thread's own run is \<open>waitForBusyFiles\<close> above.
  \<open>evictKey_ioctl\<close> is the part of \<open>evictKey\<close> after the test for the legacy keyring.
\<close>

definition evictKey_ioctl ::
  "'auth platform \<Rightarrow> string \<Rightarrow> EncryptionPolicy \<Rightarrow> 'auth world \<Rightarrow> bool \<times> 'auth world" where
  "evictKey_ioctl p mountpoint policy w0 =
     (let (fd, w1) = sys_open p mountpoint w0
      in if fd = - 1
         then (False, PLOG ERROR [S ''Failed to open '', S mountpoint, S '' to evict key''] w1)
         else let ((built, spec), w2) = buildKeySpecifier zero_key_specifier policy w1
              in if \<not> built then (False, w2)
                 else let ref = keyrefstring (key_raw_ref policy);
                          ((rc, flags), w3) = ioctl_remove_key p fd spec w2
                      in if rc \<noteq> 0
                         then (False,
                               PLOG ERROR [S ''Failed to evict fscrypt key with ref '', S ref,
                                           S '' from '', S mountpoint] w3)
                         else let w4 = LOG DEBUG [S ''Evicted fscrypt key with ref '', S ref,
                                                  S '' from '', S mountpoint] w3
                              in if flags AND FSCRYPT_KEY_REMOVAL_STATUS_FLAG_OTHER_USERS \<noteq> 0
                                 then (True,
                                       LOG ERROR [S ''Unexpected case: key with ref '', S ref,
                                                  S '' is still added by other users!''] w4)
                                 else if flags AND FSCRYPT_KEY_REMOVAL_STATUS_FLAG_FILES_BUSY \<noteq> 0
                                 then (True,
                                       emit (SpawnThread spec ref mountpoint)
                                         (LOG WARNING
                                            [S ''Files still open after removing key with ref '',
                                             S ref,
                                             S ''.  These files were not locked!  Punting busy file clean up to worker thread.'']
                                            w4))
                                 else (True, w4))"

definition evictKey ::
  "'auth platform \<Rightarrow> string \<Rightarrow> EncryptionPolicy \<Rightarrow> 'auth world \<Rightarrow> bool \<times> 'auth world" where
  "evictKey p mountpoint policy w =
     (let (legacy, w0) =
            (if version (options policy) = 1
             then (let (sup, w') = isFsKeyringSupported p w in (\<not> sup, w'))
             else (False, w))
      in if legacy then evictKeyLegacy p (key_raw_ref policy) w0
         else evictKey_ioctl p mountpoint policy w0)"

section \<open>Retrieving or generating a key\<close>


section \<open>Concrete platforms\<close>

text \<open>
  The theorems below hold for every platform. For concrete runs, \<open>calm_platform\<close> is a
  platform on which every call succeeds: the kernel supports the filesystem keyring, no
  key file exists, and nothing holds a key open. \<open>toy_hash\<close> stands in for the hash
  there; it is not SHA-512.
\<close>

definition toy_hash :: "byte list \<Rightarrow> byte list" where
  "toy_hash data = replicate 64 (if data = [] then 0 else last data + 1)"

definition calm_platform :: "unit platform" where
  "calm_platform =
     \<lparr>SHA512 = toy_hash,
      on_getpid = 1,
      on_open = (\<lambda>tr path. 3),
      on_ioctl_probe = (\<lambda>tr fd. EFAULT),
      on_ioctl_add_key = (\<lambda>tr fd arg. (0, replicate 16 0xAB)),
      on_ioctl_remove_key = (\<lambda>tr fd spec. (0, 0)),
      on_ioctl_get_key_status = (\<lambda>tr fd spec. (0, FSCRYPT_KEY_STATUS_INCOMPLETELY_REMOVED)),
      on_keyctl_search = (\<lambda>tr keyring type desc. 7),
      on_add_key = (\<lambda>tr type desc payload keyring. 9),
      on_keyctl_unlink = (\<lambda>tr key keyring. 0),
      on_ReadRandomBytes = (\<lambda>tr n. (0, replicate n 0x5A)),
      on_generateWrappedStorageKey = (\<lambda>tr key. (True, replicate 64 0x11)),
      on_pathExists = (\<lambda>tr path. False),
      on_retrieveKey = (\<lambda>tr path auth key. (True, replicate 64 0x22)),
      on_storeKeyAtomically = (\<lambda>tr path tmp auth key. True)\<rparr>"

definition world0 :: "unit world" where
  "world0 = \<lparr>trace = [], supported = None\<rparr>"

definition policy_v1 :: EncryptionPolicy where
  "policy_v1 = \<lparr>options = \<lparr>version = 1, opt_use_hw_wrapped_key = False\<rparr>,
                 key_raw_ref = [1, 2, 3, 4, 5, 6, 7, 8]\<rparr>"

definition gen32 :: KeyGeneration where
  "gen32 = \<lparr>keysize = 32, allow_gen = True, use_hw_wrapped_key = False\<rparr>"

definition gen_wrapped :: KeyGeneration where
  "gen_wrapped = \<lparr>keysize = 64, allow_gen = True, use_hw_wrapped_key = True\<rparr>"

definition key64 :: KeyBuffer where
  "key64 = replicate 32 1 @ replicate 32 2"

definition opts_v1 :: EncryptionOptions where
  "opts_v1 = \<lparr>version = 1, opt_use_hw_wrapped_key = False\<rparr>"

text \<open>The calls that touch the legacy session keyring.\<close>

fun is_keyring_call :: "'auth event \<Rightarrow> bool" where
  "is_keyring_call (KeyctlSearch keyring type desc r) = True"
| "is_keyring_call (AddKey type desc payload keyring r) = True"
| "is_keyring_call (KeyctlUnlink key keyring r) = True"
| "is_keyring_call e = False"

text \<open>
  Variants of the calm platform: one whose mountpoints cannot be opened (only \<open>/data\<close>
  can), and one whose kernel lacks the filesystem keyring ioctls.
\<close>

definition closed_mountpoint :: "unit platform" where
  "closed_mountpoint = calm_platform\<lparr>on_open := \<lambda>tr path. if path = ''/data'' then 3 else - 1\<rparr>"

definition old_kernel :: "unit platform" where
  "old_kernel = calm_platform\<lparr>on_ioctl_probe := \<lambda>tr fd. ENOTTY\<rparr>"

definition key32 :: KeyBuffer where
  "key32 = replicate 32 1"

text \<open>A projection of a trace: the results of its calls of \<open>keyctl_unlink\<close>.\<close>

fun keyctl_unlink_results :: "'auth event list \<Rightarrow> int list" where
  "keyctl_unlink_results [] = []"
| "keyctl_unlink_results (KeyctlUnlink key keyring r # evs) = r # keyctl_unlink_results evs"
| "keyctl_unlink_results (e # evs) = keyctl_unlink_results evs"

text \<open>
  A platform without the keyring ioctls whose device keyring is key 5; it refuses to add
  the \<open>f2fs\<close> alias of the reference \<open>01 02 ... 08\<close>, finds that alias as key 8 and the
  others as key 7, and unlinks only key 7.
\<close>

definition refusing_keyring :: "unit platform" where
  "refusing_keyring =
     old_kernel\<lparr>on_add_key := \<lambda>tr type desc payload keyring.
                    if desc = ''f2fs:0102030405060708'' then - 1 else 9,
                on_keyctl_unlink := \<lambda>tr key keyring. if key = 7 then 0 else - 1,
                on_keyctl_search := \<lambda>tr keyring type desc.
                    if desc = ''fscrypt'' then 5 else if desc = ''f2fs:0102030405060708'' then 8
                    else 7\<rparr>"

text \<open>The delays a trace slept for.\<close>

fun sleeps :: "'auth event list \<Rightarrow> int list" where
  "sleeps [] = []"
| "sleeps (SleepFor ms # evs) = ms # sleeps evs"
| "sleeps (e # evs) = sleeps evs"

text \<open>The delays of a loop that starts at \<open>d\<close> and doubles while the delay is at most 51200.\<close>

function backoff_from :: "int \<Rightarrow> int list" where
  "backoff_from d = (if 0 < d \<and> d \<le> 51200 then d # backoff_from (d * 2) else [])"
  by pat_completeness auto
termination
  by (relation "measure (\<lambda>d. nat (51201 - d))") auto

text \<open>A platform on which the files of a key stay open for ever.\<close>

definition busy_platform :: "unit platform" where
  "busy_platform =
     calm_platform\<lparr>on_ioctl_remove_key :=
                     \<lambda>tr fd spec. (0, FSCRYPT_KEY_REMOVAL_STATUS_FLAG_FILES_BUSY)\<rparr>"

text \<open>
  On such a platform every status query answers "incompletely removed" and every removal
  succeeds with the other-users or the files-busy flag set.
\<close>

definition always_busy :: "'auth platform \<Rightarrow> bool" where
  "always_busy p \<longleftrightarrow>
     (\<forall>tr fd spec. on_ioctl_get_key_status p tr fd spec
                     = (0, FSCRYPT_KEY_STATUS_INCOMPLETELY_REMOVED)) \<and>
     (\<forall>tr fd spec. fst (on_ioctl_remove_key p tr fd spec) = 0 \<and>
        (snd (on_ioctl_remove_key p tr fd spec) AND FSCRYPT_KEY_REMOVAL_STATUS_FLAG_OTHER_USERS \<noteq> 0 \<or>
         snd (on_ioctl_remove_key p tr fd spec) AND FSCRYPT_KEY_REMOVAL_STATUS_FLAG_FILES_BUSY \<noteq> 0))"

text \<open>
  More projections of a trace: the replies to the remove-key ioctl with the specifier it
  was called on, the messages logged with severity \<open>ERROR\<close>, and the arguments of the
  threads started.
\<close>

fun remove_key_calls :: "'auth event list \<Rightarrow> (fscrypt_key_specifier \<times> int \<times> 32 word) list" where
  "remove_key_calls [] = []"
| "remove_key_calls (IoctlRemoveKey fd spec rc flags # evs) =
     (spec, rc, flags) # remove_key_calls evs"
| "remove_key_calls (e # evs) = remove_key_calls evs"

fun error_logs :: "'auth event list \<Rightarrow> frag list list" where
  "error_logs [] = []"
| "error_logs (Log sev msg # evs) =
     (if sev = ERROR then msg # error_logs evs else error_logs evs)"
| "error_logs (e # evs) = error_logs evs"

fun spawned :: "'auth event list \<Rightarrow> (fscrypt_key_specifier \<times> string \<times> string) list" where
  "spawned [] = []"
| "spawned (SpawnThread spec ref mountpoint # evs) = (spec, ref, mountpoint) # spawned evs"
| "spawned (e # evs) = spawned evs"

text \<open>A platform on which another user still has the key added.\<close>

definition shared_platform :: "unit platform" where
  "shared_platform =
     calm_platform\<lparr>on_ioctl_remove_key :=
                     \<lambda>tr fd spec. (0, FSCRYPT_KEY_REMOVAL_STATUS_FLAG_OTHER_USERS)\<rparr>"

definition spec_v1 :: fscrypt_key_specifier where
  "spec_v1 = \<lparr>spec_type = FSCRYPT_KEY_SPEC_TYPE_DESCRIPTOR,
              spec_u = [1, 2, 3, 4, 5, 6, 7, 8] @ replicate 24 0\<rparr>"

text \<open>The error line of an eviction that finds the key still added by other users.\<close>

definition other_users_msg :: "string \<Rightarrow> frag list" where
  "other_users_msg ref =
     [S ''Unexpected case: key with ref '', S ref, S '' is still added by other users!'']"

text \<open>
  The system calls of a trace are its events other than log lines. A trace is answered by
  a platform when every system call in it carries the reply that the platform gives
  after the events before it.
\<close>

fun is_log :: "'auth event \<Rightarrow> bool" where
  "is_log (Log sev msg) = True"
| "is_log (PLog sev msg) = True"
| "is_log e = False"

definition syscalls :: "'auth event list \<Rightarrow> 'auth event list" where
  "syscalls evs = filter (\<lambda>e. \<not> is_log e) evs"

fun reply_ok :: "'auth platform \<Rightarrow> 'auth event list \<Rightarrow> 'auth event \<Rightarrow> bool" where
  "reply_ok p h (Open path fd) = (on_open p h path = fd)"
| "reply_ok p h (IoctlProbe fd errno) = (on_ioctl_probe p h fd = errno)"
| "reply_ok p h (IoctlAddKey fd arg rc ident) = (on_ioctl_add_key p h fd arg = (rc, ident))"
| "reply_ok p h (IoctlRemoveKey fd spec rc flags) = (on_ioctl_remove_key p h fd spec = (rc, flags))"
| "reply_ok p h (IoctlGetKeyStatus fd spec rc status) =
     (on_ioctl_get_key_status p h fd spec = (rc, status))"
| "reply_ok p h (KeyctlSearch keyring type desc r) = (on_keyctl_search p h keyring type desc = r)"
| "reply_ok p h (AddKey type desc payload keyring r) =
     (on_add_key p h type desc payload keyring = r)"
| "reply_ok p h (KeyctlUnlink key keyring r) = (on_keyctl_unlink p h key keyring = r)"
| "reply_ok p h e = True"

fun answered :: "'auth platform \<Rightarrow> 'auth event list \<Rightarrow> 'auth event list \<Rightarrow> bool" where
  "answered p h [] = True"
| "answered p h (e # evs) = (reply_ok p h e \<and> answered p (h @ [e]) evs)"

text \<open>
  The system calls of the legacy keyring for one alias: the insertion of the key under
  the alias with reply \<open>k\<close>, and the search for the alias with reply \<open>s\<close> followed by the
  unlink of what was found, with reply \<open>r\<close>.
\<close>

definition alias_insertion ::
  "KeyBuffer \<Rightarrow> byte list \<Rightarrow> int \<Rightarrow> string \<Rightarrow> int \<Rightarrow> 'auth event" where
  "alias_insertion key raw_ref device_keyring name_prefix k =
     AddKey ''logon'' (name_prefix @ '':'' @ keyrefstring raw_ref)
       \<lparr>fk_mode = 0, fk_raw = key, fk_size = 64\<rparr> device_keyring k"

definition alias_unlink ::
  "byte list \<Rightarrow> int \<Rightarrow> string \<Rightarrow> int \<times> int \<Rightarrow> 'auth event list" where
  "alias_unlink raw_ref device_keyring name_prefix sr =
     [KeyctlSearch device_keyring ''logon'' (name_prefix @ '':'' @ keyrefstring raw_ref) (fst sr),
      KeyctlUnlink (key_serial_t (fst sr)) device_keyring (snd sr)]"

text \<open>A platform without the \<open>fscrypt\<close> keyring in the session keyring.\<close>

definition no_keyring :: "unit platform" where
  "no_keyring = old_kernel\<lparr>on_keyctl_search := \<lambda>tr keyring type desc. - 1\<rparr>"

text \<open>A platform whose hardware collaborator produces a blob of 100 bytes.\<close>

definition long_blob_platform :: "unit platform" where
  "long_blob_platform =
     calm_platform\<lparr>on_generateWrappedStorageKey := \<lambda>tr key. (True, replicate 100 0x11)\<rparr>"

text \<open>
  One attempt of the reaper, as the replies it got: the reply to the status query and,
  when a removal was issued, the reply to it. The system calls of the attempt with delay
  \<open>d\<close>; whether a removal was issued exactly when the status query succeeded with
  "incompletely removed"; and whether the attempt leaves the files busy, that is, the
  removal succeeded with the other-users or the files-busy flag set.
\<close>

type_synonym attempt = "(int \<times> 32 word) \<times> (int \<times> 32 word) option"

definition attempt_calls ::
  "int \<Rightarrow> fscrypt_key_specifier \<Rightarrow> int \<Rightarrow> attempt \<Rightarrow> 'auth event list" where
  "attempt_calls fd kspec d a =
     [SleepFor d, IoctlGetKeyStatus fd kspec (fst (fst a)) (snd (fst a))] @
     (case snd a of None \<Rightarrow> [] | Some r \<Rightarrow> [IoctlRemoveKey fd kspec (fst r) (snd r)])"

definition removal_as_due :: "attempt \<Rightarrow> bool" where
  "removal_as_due a \<longleftrightarrow>
     (snd a \<noteq> None \<longleftrightarrow> fst a = (0, FSCRYPT_KEY_STATUS_INCOMPLETELY_REMOVED))"

definition still_busy :: "attempt \<Rightarrow> bool" where
  "still_busy a \<longleftrightarrow>
     (case snd a of
        None \<Rightarrow> False
      | Some r \<Rightarrow> fst r = 0 \<and>
          (snd r AND FSCRYPT_KEY_REMOVAL_STATUS_FLAG_OTHER_USERS \<noteq> 0 \<or>
           snd r AND FSCRYPT_KEY_REMOVAL_STATUS_FLAG_FILES_BUSY \<noteq> 0))"

text \<open>
  The system calls \<open>calls\<close> are a run of attempts \<open>as\<close> over the delays \<open>ds\<close>: one attempt
  per delay, in order, at least one when there is a delay; each attempt issues the
  removal exactly when it is due; every attempt but the last leaves the files busy; and
  the run stops before the delays are used up only when its last attempt does not leave
  the files busy.
\<close>

definition attempts_over ::
  "int \<Rightarrow> fscrypt_key_specifier \<Rightarrow> int list \<Rightarrow> attempt list \<Rightarrow> 'auth event list \<Rightarrow> bool" where
  "attempts_over fd kspec ds as calls \<longleftrightarrow>
     length as \<le> length ds \<and> (ds \<noteq> [] \<longrightarrow> as \<noteq> []) \<and>
     calls = concat (map2 (attempt_calls fd kspec) ds as) \<and>
     (\<forall>a \<in> set as. removal_as_due a) \<and>
     (\<forall>a \<in> set (butlast as). still_busy a) \<and>
     (length as < length ds \<longrightarrow> \<not> still_busy (last as))"

text \<open>A version-2 policy whose key reference has the 8 bytes of a descriptor.\<close>

definition policy_short_ref :: EncryptionPolicy where
  "policy_short_ref = policy_v1\<lparr>options := \<lparr>version = 2, opt_use_hw_wrapped_key = False\<rparr>\<rparr>"

section \<open>Basic facts about traces\<close>

lemma trace_emit [simp]: "trace (emit e w) = trace w @ [e]"
  by (simp add: emit_def)

lemma supported_emit [simp]: "supported (emit e w) = supported w"
  by (simp add: emit_def)

lemma added_append [simp]: "trace w' = trace w @ evs \<Longrightarrow> added w w' = evs"
  by (simp add: added_def)

lemma length_write_into [simp]: "length (write_into dst src) = length dst"
  by (simp add: write_into_def)

lemma answered_append [simp]:
  "answered p h (xs @ ys) \<longleftrightarrow> answered p h xs \<and> answered p (h @ xs) ys"
  by (induction xs arbitrary: h) auto

lemma syscalls_append [simp]: "syscalls (xs @ ys) = syscalls xs @ syscalls ys"
  by (simp add: syscalls_def)

lemma syscalls_Cons [simp]:
  "syscalls (e # evs) = (if is_log e then syscalls evs else e # syscalls evs)"
  by (simp add: syscalls_def)

lemma syscalls_Nil [simp]: "syscalls [] = []"
  by (simp add: syscalls_def)

lemma nested_pair_collapse: "t = ((fst (fst t), snd (fst t)), snd t)"
  by simp

lemma length_3_list: "length xs = 3 \<Longrightarrow> \<exists>a b c. xs = [a, b, c]"
  by (auto simp add: numeral_3_eq_3 length_Suc_conv)

section \<open>Key specifiers: when building succeeds\<close>

text \<open>
  C3. Building a key specifier succeeds exactly when the policy version is 1 and the key
  reference has 8 bytes, or the version is 2 and the reference has 16 bytes. In the first
  case the specifier is descriptor-typed and starts with the reference, in the second it
  is identifier-typed and starts with the reference. In every other case (another
  length, another version) the call fails, leaves the specifier as it was and logs one
  error.
\<close>

theorem buildKeySpecifier_succeeds_iff:
  "(fst (fst (buildKeySpecifier spec policy w)) \<longleftrightarrow>
      (version (options policy) = 1 \<and> length (key_raw_ref policy) = 8) \<or>
      (version (options policy) = 2 \<and> length (key_raw_ref policy) = 16)) \<and>
   (version (options policy) = 1 \<and> length (key_raw_ref policy) = 8 \<longrightarrow>
      spec_type (snd (fst (buildKeySpecifier spec policy w))) = FSCRYPT_KEY_SPEC_TYPE_DESCRIPTOR \<and>
      (length (spec_u spec) = 32 \<longrightarrow>
         take 8 (spec_u (snd (fst (buildKeySpecifier spec policy w)))) = key_raw_ref policy)) \<and>
   (version (options policy) = 2 \<and> length (key_raw_ref policy) = 16 \<longrightarrow>
      spec_type (snd (fst (buildKeySpecifier spec policy w))) = FSCRYPT_KEY_SPEC_TYPE_IDENTIFIER \<and>
      (length (spec_u spec) = 32 \<longrightarrow>
         take 16 (spec_u (snd (fst (buildKeySpecifier spec policy w)))) = key_raw_ref policy)) \<and>
   (\<not> fst (fst (buildKeySpecifier spec policy w)) \<longrightarrow>
      snd (fst (buildKeySpecifier spec policy w)) = spec \<and>
      (\<exists>msg. added w (snd (buildKeySpecifier spec policy w)) = [Log ERROR msg]))"
  by (simp add: buildKeySpecifier_def FSCRYPT_KEY_DESCRIPTOR_SIZE_def
      FSCRYPT_KEY_IDENTIFIER_SIZE_def memcpy_def write_into_def LOG_def emit_def added_def)

theorem buildKeySpecifier_succeeds_iff_witness:
  "fst (fst (buildKeySpecifier zero_key_specifier policy_v1 world0)) \<and>
   spec_u (snd (fst (buildKeySpecifier zero_key_specifier policy_v1 world0)))
     = [1, 2, 3, 4, 5, 6, 7, 8] @ replicate 24 0 \<and>
   \<not> fst (fst (buildKeySpecifier zero_key_specifier
          (policy_v1\<lparr>options := \<lparr>version = 2, opt_use_hw_wrapped_key = False\<rparr>\<rparr>) world0))"
  using buildKeySpecifier_succeeds_iff [of zero_key_specifier policy_v1 world0]
    buildKeySpecifier_succeeds_iff [of zero_key_specifier
      "policy_v1\<lparr>options := \<lparr>version = 2, opt_use_hw_wrapped_key = False\<rparr>\<rparr>" world0]
  by (simp add: policy_v1_def zero_key_specifier_def buildKeySpecifier_def
      FSCRYPT_KEY_DESCRIPTOR_SIZE_def memcpy_def write_into_def)

section \<open>Key generation: when it fails\<close>

text \<open>
  C7, as the code has it. \<open>random\<close> and \<open>wrapped\<close> are the replies of the random source and
  of the hardware collaborator at the point where \<open>generateStorageKey\<close> calls them.
  \<open>generateStorageKey\<close> fails exactly when generation is not allowed, or a hardware-wrapped
  key of a size other than \<open>FSCRYPT_MAX_KEY_SIZE\<close> is requested, or the hardware collaborator
  reports failure, or the random source returns a non-zero status. In the first two cases
  one error line is all that happens: no collaborator is called and the caller's buffer
  is untouched. A request for a wrapped key of the right size calls the hardware
  collaborator once and returns what it replied, result and key alike, whatever the
  key's size. A standard request calls the random source once for the requested number
  of bytes, and the key is the buffer of the requested size with the bytes read.
\<close>

theorem generateStorageKey_fails_exactly:
  assumes "generateStorageKey p gen key w = ((ok, key'), w')"
    and "random = on_ReadRandomBytes p
           (trace w @ [Log DEBUG [S ''Generating standard storage key'']]) (keysize gen)"
    and "wrapped = on_generateWrappedStorageKey p
           (trace w @ [Log DEBUG [S ''Generating wrapped storage key'']]) key"
  shows "(\<not> ok \<longleftrightarrow>
            \<not> allow_gen gen \<or>
            (use_hw_wrapped_key gen \<and> keysize gen \<noteq> FSCRYPT_MAX_KEY_SIZE) \<or>
            (use_hw_wrapped_key gen \<and> \<not> fst wrapped) \<or>
            (\<not> use_hw_wrapped_key gen \<and> fst random \<noteq> 0)) \<and>
         (\<not> allow_gen gen \<longrightarrow>
            key' = key \<and>
            added w w' = [Log ERROR [S ''Generating storage key not allowed'']]) \<and>
         (allow_gen gen \<and> use_hw_wrapped_key gen \<and> keysize gen \<noteq> FSCRYPT_MAX_KEY_SIZE \<longrightarrow>
            key' = key \<and>
            added w w' = [Log ERROR [S ''Cannot generate a wrapped key '', N (int (keysize gen)),
                                     S '' bytes long'']]) \<and>
         (allow_gen gen \<and> use_hw_wrapped_key gen \<and> keysize gen = FSCRYPT_MAX_KEY_SIZE \<longrightarrow>
            (ok, key') = wrapped \<and>
            added w w' = [Log DEBUG [S ''Generating wrapped storage key''],
                          GenerateWrapped (fst wrapped) (snd wrapped)]) \<and>
         (allow_gen gen \<and> \<not> use_hw_wrapped_key gen \<longrightarrow>
            key' = write_into (replicate (keysize gen) 0) (snd random) \<and>
            length key' = keysize gen \<and>
            added w w' =
              [Log DEBUG [S ''Generating standard storage key''],
               ReadRandom (keysize gen) (fst random) (snd random)] @
              (if fst random \<noteq> 0 then [Log ERROR [S ''Random read failed'']] else []))"
  using assms
  by (auto simp add: generateStorageKey_def generateWrappedStorageKey_def randomKey_def
      ReadRandomBytes_def LOG_def Let_def split: if_splits prod.splits)

text \<open>The definitions a concrete key generation unfolds.\<close>

lemmas gen_run_defs = gen32_def gen_wrapped_def neverGen_def calm_platform_def
  long_blob_platform_def world0_def FSCRYPT_MAX_KEY_SIZE_def generateStorageKey_def
  generateWrappedStorageKey_def randomKey_def ReadRandomBytes_def LOG_def emit_def Let_def
  write_into_def

text \<open>
  C7, as stated, fails in its last sentence: a wrapped key of \<open>FSCRYPT_MAX_KEY_SIZE\<close> = 64
  bytes is requested, the hardware collaborator produces a blob of 100 bytes, and
  \<open>generateStorageKey\<close> succeeds with these 100 bytes.
\<close>

theorem generateStorageKey_size_counterexample:
  "fst (generateStorageKey long_blob_platform gen_wrapped [] world0)
     = (True, replicate 100 0x11) \<and>
   keysize gen_wrapped = 64 \<and>
   length (snd (fst (generateStorageKey long_blob_platform gen_wrapped [] world0))) = 100"
proof (intro conjI)
  show "fst (generateStorageKey long_blob_platform gen_wrapped [] world0)
     = (True, replicate 100 0x11)"
    by (simp add: gen_run_defs)
  show "keysize gen_wrapped = 64"
    by (simp add: gen_wrapped_def)
  show "length (snd (fst (generateStorageKey long_blob_platform gen_wrapped [] world0))) = 100"
    by (simp add: gen_run_defs)
qed

theorem generateStorageKey_fails_exactly_witness:
  "fst (generateStorageKey calm_platform gen32 [] world0) = (True, replicate 32 0x5A) \<and>
   added world0 (snd (generateStorageKey calm_platform gen32 [] world0))
     = [Log DEBUG [S ''Generating standard storage key''], ReadRandom 32 0 (replicate 32 0x5A)] \<and>
   \<not> fst (fst (generateStorageKey (calm_platform\<lparr>on_ReadRandomBytes := \<lambda>tr n. (- 1, [])\<rparr>)
               gen32 [] world0))"
proof -
  have h1: "(0, replicate 32 0x5A) = on_ReadRandomBytes calm_platform
           (trace world0 @ [Log DEBUG [S ''Generating standard storage key'']]) (keysize gen32)"
    by (simp add: calm_platform_def gen32_def)
  have h2: "(True, replicate 64 0x11) = on_generateWrappedStorageKey calm_platform
           (trace world0 @ [Log DEBUG [S ''Generating wrapped storage key'']]) []"
    by (simp add: calm_platform_def)
  have g: "allow_gen gen32" "\<not> use_hw_wrapped_key gen32" "keysize gen32 = 32"
    by (simp_all add: gen32_def)
  have w: "write_into (replicate 32 0) (replicate 32 (0x5A :: byte)) = replicate 32 0x5A"
    by (simp add: write_into_def)
  have e: "\<not> fst (fst (generateStorageKey (calm_platform\<lparr>on_ReadRandomBytes := \<lambda>tr n. (- 1, [])\<rparr>)
               gen32 [] world0))"
    by (simp add: gen_run_defs)
  from generateStorageKey_fails_exactly [OF nested_pair_collapse h1 h2]
  have "fst (fst (generateStorageKey calm_platform gen32 [] world0)) \<and>
        snd (fst (generateStorageKey calm_platform gen32 [] world0)) = replicate 32 0x5A \<and>
        added world0 (snd (generateStorageKey calm_platform gen32 [] world0))
     = [Log DEBUG [S ''Generating standard storage key''], ReadRandom 32 0 (replicate 32 0x5A)]"
    by (simp add: g w)
  with e show ?thesis by (simp add: prod_eq_iff)
qed

section \<open>Retrieving or generating a key: the three branches\<close>



section \<open>Installing a key: the policy it leaves behind\<close>

lemma generateKeyRef_double_hash:
  "generateKeyRef p key n = take 8 (SHA512_Final p (SHA512_Final p (take n key)))"
  by (simp add: generateKeyRef_def SHA512_Final_def SHA512_DIGEST_LENGTH_def
      FSCRYPT_KEY_DESCRIPTOR_SIZE_def Let_def)

lemma length_generateKeyRef [simp]: "length (generateKeyRef p key n) = 8"
  by (simp add: generateKeyRef_def SHA512_Final_def SHA512_DIGEST_LENGTH_def
      FSCRYPT_KEY_DESCRIPTOR_SIZE_def Let_def)

lemma installKey_ioctl_policy:
  assumes "installKey_ioctl p mountpoint opts key arg policy w = ((ok, policy'), w')"
    and "spec_type (key_spec arg) \<noteq> FSCRYPT_KEY_SPEC_TYPE_IDENTIFIER"
  shows "policy' = policy"
  using assms
  by (auto simp add: installKey_ioctl_def sys_open_def ioctl_add_key_def Let_def
      split: if_splits prod.splits)

lemma buildKeySpecifier_v1_type:
  assumes "buildKeySpecifier spec policy w = ((True, spec'), w')"
    and "version (options policy) = 1"
  shows "spec_type spec' = FSCRYPT_KEY_SPEC_TYPE_DESCRIPTOR"
  using assms by (auto simp add: buildKeySpecifier_def split: if_splits)

text \<open>The policy after a version-1 install, whatever the outcome.\<close>

lemma installKey_v1_policy:
  assumes "installKey p mountpoint opts key policy w = ((ok, policy'), w')"
    and "version opts = 1"
  shows "policy' = policy\<lparr>options := opts,
            key_raw_ref := (if opt_use_hw_wrapped_key opts
                            then generateKeyRef p key (length key div 2)
                            else generateKeyRef p key (length key))\<rparr>"
proof -
  let ?ref = "if opt_use_hw_wrapped_key opts then generateKeyRef p key (length key div 2)
              else generateKeyRef p key (length key)"
  let ?policy2 = "policy\<lparr>options := opts, key_raw_ref := ?ref\<rparr>"
  obtain sup w1 where sup: "isFsKeyringSupported p w = (sup, w1)"
    by (cases "isFsKeyringSupported p w")
  show "policy' = ?policy2"
  proof (cases sup)
    case False
    with assms sup show ?thesis
      by (auto simp add: installKey_def Let_def split: if_splits prod.splits)
  next
    case True
    obtain built spec w2 where
      b: "buildKeySpecifier (key_spec (zero_add_key_arg (length key))) ?policy2 w1
            = ((built, spec), w2)"
      by (metis prod.collapse)
    show ?thesis
    proof (cases built)
      case False
      with assms sup True b show ?thesis
        by (auto simp add: installKey_def Let_def split: if_splits prod.splits)
    next
      case built: True
      from b built have "spec_type spec = FSCRYPT_KEY_SPEC_TYPE_DESCRIPTOR"
        using assms(2) by (auto dest!: buildKeySpecifier_v1_type)
      then have ty: "spec_type spec \<noteq> FSCRYPT_KEY_SPEC_TYPE_IDENTIFIER"
        by (simp add: FSCRYPT_KEY_SPEC_TYPE_DESCRIPTOR_def FSCRYPT_KEY_SPEC_TYPE_IDENTIFIER_def)
      from assms sup True b built
      have "installKey_ioctl p mountpoint opts key
              ((zero_add_key_arg (length key))\<lparr>key_spec := spec\<rparr>) ?policy2 w2
            = ((ok, policy'), w')"
        by (auto simp add: installKey_def Let_def split: if_splits prod.splits)
      from installKey_ioctl_policy [OF this] ty show ?thesis by simp
    qed
  qed
qed

text \<open>The definitions a concrete install unfolds.\<close>

lemmas run_defs = calm_platform_def world0_def key64_def opts_v1_def policy_v1_def toy_hash_def
  installKey_def installKey_ioctl_def installKeyLegacy_def isFsKeyringSupported_def
  isFsKeyringSupportedImpl_def buildKeySpecifier_def generateKeyRef_def SHA512_Final_def
  fillKey_def fscryptKeyring_def sys_open_def ioctl_probe_def ioctl_add_key_def
  keyctl_search_def add_key_def LOG_def PLOG_def emit_def Let_def write_into_def memcpy_def
  zero_add_key_arg_def zero_key_specifier_def zero_fscrypt_key_def
  FSCRYPT_MAX_KEY_SIZE_def FSCRYPT_KEY_DESCRIPTOR_SIZE_def FSCRYPT_KEY_IDENTIFIER_SIZE_def
  SHA512_DIGEST_LENGTH_def FSCRYPT_KEY_SPEC_TYPE_DESCRIPTOR_def FSCRYPT_KEY_SPEC_TYPE_IDENTIFIER_def
  closed_mountpoint_def old_kernel_def key32_def NAME_PREFIXES_def key_serial_t_def
  ENOTTY_def EFAULT_def KEY_SPEC_SESSION_KEYRING_def FSCRYPT_ADD_KEY_FLAG_HW_WRAPPED_def

text \<open>
  C5. After a version-1 install the key reference in the policy is the first 8 bytes of
  the double hash of the key: of its first \<open>key.size()/2\<close> bytes when the options ask for
  a hardware-wrapped key, of the whole buffer otherwise. This holds for every outcome of
  the install, since the reference is stored before anything can fail and a version-1
  install never overwrites it.
\<close>

theorem installKey_v1_key_ref:
  assumes "installKey p mountpoint opts key policy w = ((ok, policy'), w')"
    and "version opts = 1"
  shows "key_raw_ref policy' =
           (if opt_use_hw_wrapped_key opts
            then take 8 (SHA512_Final p (SHA512_Final p (take (length key div 2) key)))
            else take 8 (SHA512_Final p (SHA512_Final p key)))"
  using installKey_v1_policy [OF assms] by (simp add: generateKeyRef_double_hash)

theorem installKey_v1_key_ref_witness:
  "key_raw_ref (snd (fst (installKey calm_platform ''/mnt''
      (opts_v1\<lparr>opt_use_hw_wrapped_key := True\<rparr>) key64 policy_v1 world0))) = replicate 8 3 \<and>
   key_raw_ref (snd (fst (installKey calm_platform ''/mnt'' opts_v1 key64 policy_v1 world0)))
     = replicate 8 4"
  using installKey_v1_key_ref [of calm_platform "''/mnt''" "opts_v1\<lparr>opt_use_hw_wrapped_key := True\<rparr>"
       key64 policy_v1 world0
       "fst (fst (installKey calm_platform ''/mnt'' (opts_v1\<lparr>opt_use_hw_wrapped_key := True\<rparr>) key64 policy_v1 world0))"
       "snd (fst (installKey calm_platform ''/mnt'' (opts_v1\<lparr>opt_use_hw_wrapped_key := True\<rparr>) key64 policy_v1 world0))"
       "snd (installKey calm_platform ''/mnt'' (opts_v1\<lparr>opt_use_hw_wrapped_key := True\<rparr>) key64 policy_v1 world0)"]
    installKey_v1_key_ref [of calm_platform "''/mnt''" opts_v1 key64 policy_v1 world0
       "fst (fst (installKey calm_platform ''/mnt'' opts_v1 key64 policy_v1 world0))"
       "snd (fst (installKey calm_platform ''/mnt'' opts_v1 key64 policy_v1 world0))"
       "snd (installKey calm_platform ''/mnt'' opts_v1 key64 policy_v1 world0)"]
  by (simp add: opts_v1_def calm_platform_def key64_def toy_hash_def SHA512_Final_def write_into_def SHA512_DIGEST_LENGTH_def)

lemma installKey_ioctl_options:
  assumes "installKey_ioctl p mountpoint opts key arg policy w = ((ok, policy'), w')"
  shows "options policy' = options policy"
  using assms
  by (auto simp add: installKey_ioctl_def sys_open_def ioctl_add_key_def Let_def
      split: if_splits prod.splits)

lemma installKey_options:
  assumes "installKey p mountpoint opts key policy w = ((ok, policy'), w')"
  shows "options policy' = opts"
proof (cases "version opts = 1")
  case True
  from installKey_v1_policy [OF assms True] show ?thesis by simp
next
  case False
  with assms show ?thesis
    by (auto simp add: installKey_def Let_def split: if_splits dest!: installKey_ioctl_options)
qed

text \<open>
  C9. \<open>installKey\<close> changes the caller's policy also when it fails. Whatever it returns,
  the policy's options are the options passed in; for a version-1 request the key
  reference is the derived one, whether the legacy install, building the specifier,
  opening the mountpoint or the ioctl then fails or not. Three failing runs show the
  change: an unsupported version 3 (the options are overwritten), a mountpoint that
  cannot be opened, and a legacy keyring that refuses the key (the reference is
  overwritten in both).
\<close>

theorem installKey_output_not_atomic:
  "options (snd (fst (installKey p mountpoint opts key policy w))) = opts \<and>
   (version opts = 1 \<longrightarrow>
      key_raw_ref (snd (fst (installKey p mountpoint opts key policy w)))
        = generateKeyRef p key (if opt_use_hw_wrapped_key opts then length key div 2
                                else length key)) \<and>
   fst (installKey calm_platform ''/mnt'' (opts_v1\<lparr>version := 3\<rparr>) key64 policy_v1 world0)
     = (False, policy_v1\<lparr>options := opts_v1\<lparr>version := 3\<rparr>\<rparr>) \<and>
   policy_v1\<lparr>options := opts_v1\<lparr>version := 3\<rparr>\<rparr> \<noteq> policy_v1 \<and>
   fst (installKey closed_mountpoint ''/mnt'' opts_v1 key64 policy_v1 world0)
     = (False, policy_v1\<lparr>key_raw_ref := replicate 8 4\<rparr>) \<and>
   fst (installKey (old_kernel\<lparr>on_add_key := \<lambda>tr type desc payload keyring. - 1\<rparr>)
          ''/mnt'' opts_v1 key64 policy_v1 world0)
     = (False, policy_v1\<lparr>key_raw_ref := replicate 8 4\<rparr>) \<and>
   policy_v1\<lparr>key_raw_ref := replicate 8 4\<rparr> \<noteq> policy_v1"
proof -
  obtain ok policy' w' where r: "installKey p mountpoint opts key policy w = ((ok, policy'), w')"
    by (metis prod.collapse)
  have a: "options (snd (fst (installKey p mountpoint opts key policy w))) = opts"
    using installKey_options [OF r] r by simp
  have b: "version opts = 1 \<longrightarrow>
      key_raw_ref (snd (fst (installKey p mountpoint opts key policy w)))
        = generateKeyRef p key (if opt_use_hw_wrapped_key opts then length key div 2
                                else length key)"
    using installKey_v1_policy [OF r] r by simp
  have c: "fst (installKey calm_platform ''/mnt'' (opts_v1\<lparr>version := 3\<rparr>) key64 policy_v1 world0)
     = (False, policy_v1\<lparr>options := opts_v1\<lparr>version := 3\<rparr>\<rparr>)"
    by (simp add: run_defs)
  have d: "policy_v1\<lparr>options := opts_v1\<lparr>version := 3\<rparr>\<rparr> \<noteq> policy_v1"
    by (simp add: policy_v1_def opts_v1_def)
  have e: "fst (installKey closed_mountpoint ''/mnt'' opts_v1 key64 policy_v1 world0)
     = (False, policy_v1\<lparr>key_raw_ref := replicate 8 4\<rparr>)"
    by (simp add: run_defs)
  have f: "fst (installKey (old_kernel\<lparr>on_add_key := \<lambda>tr type desc payload keyring. - 1\<rparr>)
          ''/mnt'' opts_v1 key64 policy_v1 world0)
     = (False, policy_v1\<lparr>key_raw_ref := replicate 8 4\<rparr>)"
    by (simp add: run_defs)
  have g: "policy_v1\<lparr>key_raw_ref := replicate 8 4\<rparr> \<noteq> policy_v1"
    by (simp add: policy_v1_def numeral_eq_Suc)
  from a b c d e f g show ?thesis by blast
qed

theorem installKey_output_not_atomic_witness:
  "key_raw_ref (snd (fst (installKey closed_mountpoint ''/mnt'' opts_v1 key64 policy_v1 world0)))
     = replicate 8 4 \<and>
   \<not> fst (fst (installKey closed_mountpoint ''/mnt'' opts_v1 key64 policy_v1 world0)) \<and>
   key_raw_ref policy_v1 \<noteq> replicate 8 4"
  using installKey_output_not_atomic [of closed_mountpoint "''/mnt''" opts_v1 key64 policy_v1 world0]
  by (simp add: run_defs numeral_eq_Suc)

lemma isFsKeyringSupported_trace:
  assumes "isFsKeyringSupported p w = (b, w1)"
  shows "\<exists>evs. trace w1 = trace w @ evs \<and> (\<forall>e \<in> set evs. \<not> is_keyring_call e)"
  using assms
  by (auto simp add: isFsKeyringSupported_def isFsKeyringSupportedImpl_def sys_open_def
      ioctl_probe_def LOG_def PLOG_def Let_def split: option.splits if_splits prod.splits)

text \<open>
  C10. For a version-1 install on a kernel without the filesystem keyring ioctls, a key
  whose size is not \<open>FSCRYPT_MAX_KEY_SIZE\<close> makes the install fail before any call on the
  session keyring. On a kernel with the ioctls there is no such condition: whatever the
  key's size, the install succeeds when the mountpoint opens and the kernel accepts the
  key.
\<close>

theorem installKey_legacy_requires_max_key_size:
  assumes "installKey p mountpoint opts key policy w = ((ok, policy'), w')"
    and "version opts = 1"
  shows "(\<not> fst (isFsKeyringSupported p w) \<and> length key \<noteq> FSCRYPT_MAX_KEY_SIZE \<longrightarrow>
            \<not> ok \<and> (\<forall>e \<in> set (added w w'). \<not> is_keyring_call e)) \<and>
         (fst (isFsKeyringSupported p w) \<and>
          (\<forall>tr. on_open p tr mountpoint \<noteq> - 1) \<and>
          (\<forall>tr fd arg. fst (on_ioctl_add_key p tr fd arg) = 0) \<longrightarrow> ok)"
proof -
  obtain sup w1 where sup: "isFsKeyringSupported p w = (sup, w1)"
    by (cases "isFsKeyringSupported p w")
  from isFsKeyringSupported_trace [OF sup] obtain evs where
    evs: "trace w1 = trace w @ evs" "\<forall>e \<in> set evs. \<not> is_keyring_call e" by blast
  have legacy: "\<not> ok \<and> (\<forall>e \<in> set (added w w'). \<not> is_keyring_call e)"
    if "\<not> sup" "length key \<noteq> FSCRYPT_MAX_KEY_SIZE"
  proof -
    from assms sup that
    have "\<not> ok \<and> w' = LOG ERROR [S ''Wrong size key '', N (int (length key))] w1"
      by (auto simp add: installKey_def installKeyLegacy_def fillKey_def Let_def
          split: if_splits prod.splits)
    with evs show ?thesis by (auto simp add: LOG_def added_def)
  qed
  have modern: ok
    if "sup" "\<forall>tr. on_open p tr mountpoint \<noteq> - 1"
      "\<forall>tr fd arg. fst (on_ioctl_add_key p tr fd arg) = 0"
    using assms sup that
    apply (simp add: installKey_def Let_def buildKeySpecifier_def FSCRYPT_KEY_DESCRIPTOR_SIZE_def split: if_splits)
    apply (auto simp add: installKey_ioctl_def sys_open_def ioctl_add_key_def Let_def
          split: if_splits prod.splits)
    apply (metis fst_conv)+
    done
  from legacy modern sup show ?thesis by auto
qed

theorem installKey_legacy_requires_max_key_size_witness:
  "\<not> fst (fst (installKey old_kernel ''/mnt'' opts_v1 key32 policy_v1 world0)) \<and>
   fst (fst (installKey old_kernel ''/mnt'' opts_v1 key64 policy_v1 world0)) \<and>
   fst (fst (installKey calm_platform ''/mnt'' opts_v1 key32 policy_v1 world0))"
  using installKey_legacy_requires_max_key_size [of old_kernel "''/mnt''" opts_v1 key32 policy_v1 world0
      "fst (fst (installKey old_kernel ''/mnt'' opts_v1 key32 policy_v1 world0))"
      "snd (fst (installKey old_kernel ''/mnt'' opts_v1 key32 policy_v1 world0))"
      "snd (installKey old_kernel ''/mnt'' opts_v1 key32 policy_v1 world0)"]
    installKey_legacy_requires_max_key_size [of calm_platform "''/mnt''" opts_v1 key32 policy_v1 world0
      "fst (fst (installKey calm_platform ''/mnt'' opts_v1 key32 policy_v1 world0))"
      "snd (fst (installKey calm_platform ''/mnt'' opts_v1 key32 policy_v1 world0))"
      "snd (installKey calm_platform ''/mnt'' opts_v1 key32 policy_v1 world0)"]
  by (simp add: run_defs)

section \<open>The legacy session keyring: every alias\<close>

text \<open>The definitions a concrete run on the legacy keyring unfolds.\<close>

lemmas legacy_run_defs = refusing_keyring_def no_keyring_def old_kernel_def calm_platform_def
  world0_def evictKeyLegacy_def installKeyLegacy_def fillKey_def fscryptKeyring_def
  keyctl_search_def keyctl_unlink_def add_key_def NAME_PREFIXES_def buildLegacyKeyName_def
  keyrefstring_def hex_digit_def LOG_def PLOG_def emit_def Let_def KEY_SPEC_SESSION_KEYRING_def
  added_def key64_def key32_def zero_fscrypt_key_def memcpy_def write_into_def
  FSCRYPT_MAX_KEY_SIZE_def key_serial_t_def alias_insertion_def

text \<open>
  The loop of \<open>evictKeyLegacy\<close> over any list of name prefixes searches and unlinks once
  per name, in order, whatever the unlinks return, and its result is the conjunction of
  \<open>success\<close> so far with all unlinks returning 0. \<open>rs\<close> are the replies per name.
\<close>

lemma evictKeyLegacy_loop_calls:
  "evictKeyLegacy_loop p raw_ref kr success names w = (ok, w') \<Longrightarrow>
   \<exists>evs rs. trace w' = trace w @ evs \<and> answered p (trace w) evs \<and>
     length rs = length names \<and>
     syscalls evs = concat (map2 (alias_unlink raw_ref kr) names rs) \<and>
     (ok \<longleftrightarrow> success \<and> (\<forall>sr \<in> set rs. snd sr = 0))"
proof (induction names arbitrary: success w)
  case Nil
  then show ?case by simp
next
  case (Cons name names)
  let ?ref = "buildLegacyKeyName name raw_ref"
  let ?s = "on_keyctl_search p (trace w) kr ''logon'' ?ref"
  let ?w1 = "emit (KeyctlSearch kr ''logon'' ?ref ?s) w"
  let ?r = "on_keyctl_unlink p (trace ?w1) (key_serial_t ?s) kr"
  let ?w2 = "emit (KeyctlUnlink (key_serial_t ?s) kr ?r) ?w1"
  let ?line = "if ?r \<noteq> 0
     then PLog ERROR [S ''Failed to unlink key with serial '', N ?s, S '' ref '', S ?ref]
     else Log DEBUG [S ''Unlinked key with serial '', N ?s, S '' ref '', S ?ref]"
  let ?w3 = "emit ?line ?w2"
  let ?step = "[KeyctlSearch kr ''logon'' ?ref ?s, KeyctlUnlink (key_serial_t ?s) kr ?r, ?line]"
  from Cons.prems
  have "evictKeyLegacy_loop p raw_ref kr (success \<and> ?r = 0) names ?w3 = (ok, w')"
    by (simp add: keyctl_search_def keyctl_unlink_def LOG_def PLOG_def Let_def split: if_splits)
  from Cons.IH [OF this] obtain evs rs where ih:
    "trace w' = trace ?w3 @ evs" "answered p (trace ?w3) evs" "length rs = length names"
    "syscalls evs = concat (map2 (alias_unlink raw_ref kr) names rs)"
    "ok \<longleftrightarrow> (success \<and> ?r = 0) \<and> (\<forall>sr \<in> set rs. snd sr = 0)"
    by blast
  have "trace w' = trace w @ (?step @ evs)"
    using ih(1) by simp
  moreover have "answered p (trace w) (?step @ evs)"
    using ih(2) by simp
  moreover have "length ((?s, ?r) # rs) = length (name # names)"
    using ih(3) by simp
  moreover have "syscalls (?step @ evs) =
      concat (map2 (alias_unlink raw_ref kr) (name # names) ((?s, ?r) # rs))"
    using ih(4) by (simp add: alias_unlink_def buildLegacyKeyName_def)
  moreover have "ok \<longleftrightarrow> success \<and> (\<forall>sr \<in> set ((?s, ?r) # rs). snd sr = 0)"
    using ih(5) by auto
  ultimately show ?case by blast
qed

text \<open>
  C8, as the code has it. \<open>evictKeyLegacy\<close> first looks up the device keyring. When it is
  not found, the call returns false and that search is its only system call. When it is
  found, the system calls that follow are, for each of \<open>ext4\<close>, \<open>f2fs\<close> and \<open>fscrypt\<close> in this
  order, the search of the device keyring for the \<open>logon\<close> key named
  \<open><prefix>:<hex reference>\<close> and the unlink of what was found from the device keyring,
  whatever the earlier unlinks returned; the call returns true exactly when the three
  unlinks returned 0. Every system call carries the platform's reply.
\<close>

theorem evictKeyLegacy_unlinks_every_alias:
  assumes "evictKeyLegacy p raw_ref w = (ok, w')"
    and "found = on_keyctl_search p (trace w) KEY_SPEC_SESSION_KEYRING ''keyring'' ''fscrypt''"
    and "kr = key_serial_t found"
  shows "answered p (trace w) (added w w') \<and>
    (kr = - 1 \<longrightarrow>
       \<not> ok \<and>
       syscalls (added w w') = [KeyctlSearch KEY_SPEC_SESSION_KEYRING ''keyring'' ''fscrypt'' found]) \<and>
    (kr \<noteq> - 1 \<longrightarrow>
       (\<exists>s1 r1 s2 r2 s3 r3.
          syscalls (added w w') =
            [KeyctlSearch KEY_SPEC_SESSION_KEYRING ''keyring'' ''fscrypt'' found,
             KeyctlSearch kr ''logon'' (''ext4:'' @ keyrefstring raw_ref) s1,
             KeyctlUnlink (key_serial_t s1) kr r1,
             KeyctlSearch kr ''logon'' (''f2fs:'' @ keyrefstring raw_ref) s2,
             KeyctlUnlink (key_serial_t s2) kr r2,
             KeyctlSearch kr ''logon'' (''fscrypt:'' @ keyrefstring raw_ref) s3,
             KeyctlUnlink (key_serial_t s3) kr r3] \<and>
          (ok \<longleftrightarrow> r1 = 0 \<and> r2 = 0 \<and> r3 = 0)))"
proof (cases "kr = - 1")
  case True
  with assms show ?thesis
    by (auto simp add: evictKeyLegacy_def fscryptKeyring_def keyctl_search_def PLOG_def Let_def)
next
  case False
  let ?w1 = "emit (KeyctlSearch KEY_SPEC_SESSION_KEYRING ''keyring'' ''fscrypt'' found) w"
  from assms False
  have "evictKeyLegacy_loop p raw_ref kr True NAME_PREFIXES ?w1 = (ok, w')"
    by (simp add: evictKeyLegacy_def fscryptKeyring_def keyctl_search_def Let_def)
  from evictKeyLegacy_loop_calls [OF this] obtain evs rs where l:
    "trace w' = trace ?w1 @ evs" "answered p (trace ?w1) evs" "length rs = length NAME_PREFIXES"
    "syscalls evs = concat (map2 (alias_unlink raw_ref kr) NAME_PREFIXES rs)"
    "ok \<longleftrightarrow> True \<and> (\<forall>sr \<in> set rs. snd sr = 0)"
    by blast
  from l(3) obtain a b c where rs: "rs = [a, b, c]"
    using length_3_list [of rs] by (auto simp add: NAME_PREFIXES_def)
  have a: "added w w' = KeyctlSearch KEY_SPEC_SESSION_KEYRING ''keyring'' ''fscrypt'' found # evs"
    using l(1) by simp
  have "answered p (trace w) (added w w')"
    unfolding a using l(2) assms(2) by simp
  moreover have "syscalls (added w w') =
            [KeyctlSearch KEY_SPEC_SESSION_KEYRING ''keyring'' ''fscrypt'' found,
             KeyctlSearch kr ''logon'' (''ext4:'' @ keyrefstring raw_ref) (fst a),
             KeyctlUnlink (key_serial_t (fst a)) kr (snd a),
             KeyctlSearch kr ''logon'' (''f2fs:'' @ keyrefstring raw_ref) (fst b),
             KeyctlUnlink (key_serial_t (fst b)) kr (snd b),
             KeyctlSearch kr ''logon'' (''fscrypt:'' @ keyrefstring raw_ref) (fst c),
             KeyctlUnlink (key_serial_t (fst c)) kr (snd c)]"
    unfolding a using l(4) by (simp add: rs NAME_PREFIXES_def alias_unlink_def)
  moreover have "ok \<longleftrightarrow> snd a = 0 \<and> snd b = 0 \<and> snd c = 0"
    using l(5) by (simp add: rs)
  ultimately show ?thesis using False by blast
qed

text \<open>
  C8, as stated, fails: without the device keyring \<open>evictKeyLegacy\<close> returns false although
  it attempts no unlink, so no unlink attempt has failed and no alias was tried.
\<close>

theorem evictKeyLegacy_no_keyring_counterexample:
  "\<not> fst (evictKeyLegacy no_keyring [1, 2, 3, 4, 5, 6, 7, 8] world0) \<and>
   syscalls (added world0 (snd (evictKeyLegacy no_keyring [1, 2, 3, 4, 5, 6, 7, 8] world0)))
     = [KeyctlSearch KEY_SPEC_SESSION_KEYRING ''keyring'' ''fscrypt'' (- 1)] \<and>
   keyctl_unlink_results
     (added world0 (snd (evictKeyLegacy no_keyring [1, 2, 3, 4, 5, 6, 7, 8] world0))) = []"
proof (intro conjI)
  show "\<not> fst (evictKeyLegacy no_keyring [1, 2, 3, 4, 5, 6, 7, 8] world0)"
    by (simp add: legacy_run_defs)
  show "syscalls (added world0 (snd (evictKeyLegacy no_keyring [1, 2, 3, 4, 5, 6, 7, 8] world0)))
     = [KeyctlSearch KEY_SPEC_SESSION_KEYRING ''keyring'' ''fscrypt'' (- 1)]"
    by (simp add: legacy_run_defs)
  show "keyctl_unlink_results
     (added world0 (snd (evictKeyLegacy no_keyring [1, 2, 3, 4, 5, 6, 7, 8] world0))) = []"
    by (simp add: legacy_run_defs)
qed

theorem evictKeyLegacy_unlinks_every_alias_witness:
  "answered refusing_keyring (trace world0)
     (added world0 (snd (evictKeyLegacy refusing_keyring [1, 2, 3, 4, 5, 6, 7, 8] world0))) \<and>
   \<not> fst (evictKeyLegacy refusing_keyring [1, 2, 3, 4, 5, 6, 7, 8] world0) \<and>
   syscalls (added world0 (snd (evictKeyLegacy refusing_keyring [1, 2, 3, 4, 5, 6, 7, 8] world0)))
     = [KeyctlSearch KEY_SPEC_SESSION_KEYRING ''keyring'' ''fscrypt'' 5,
        KeyctlSearch 5 ''logon'' ''ext4:0102030405060708'' 7, KeyctlUnlink 7 5 0,
        KeyctlSearch 5 ''logon'' ''f2fs:0102030405060708'' 8, KeyctlUnlink 8 5 (- 1),
        KeyctlSearch 5 ''logon'' ''fscrypt:0102030405060708'' 7, KeyctlUnlink 7 5 0]"
proof -
  have h1: "(5::int) = on_keyctl_search refusing_keyring (trace world0)
      KEY_SPEC_SESSION_KEYRING ''keyring'' ''fscrypt''"
    by (simp add: refusing_keyring_def old_kernel_def calm_platform_def)
  have h2: "(5::int) = key_serial_t 5"
    by (simp add: key_serial_t_def)
  have e1: "\<not> fst (evictKeyLegacy refusing_keyring [1, 2, 3, 4, 5, 6, 7, 8] world0)"
    by (simp add: legacy_run_defs)
  have e2: "syscalls (added world0
       (snd (evictKeyLegacy refusing_keyring [1, 2, 3, 4, 5, 6, 7, 8] world0)))
     = [KeyctlSearch KEY_SPEC_SESSION_KEYRING ''keyring'' ''fscrypt'' 5,
        KeyctlSearch 5 ''logon'' ''ext4:0102030405060708'' 7, KeyctlUnlink 7 5 0,
        KeyctlSearch 5 ''logon'' ''f2fs:0102030405060708'' 8, KeyctlUnlink 8 5 (- 1),
        KeyctlSearch 5 ''logon'' ''fscrypt:0102030405060708'' 7, KeyctlUnlink 7 5 0]"
    by (simp add: legacy_run_defs)
  from evictKeyLegacy_unlinks_every_alias [OF prod.collapse [symmetric] h1 h2]
  have "answered refusing_keyring (trace world0)
     (added world0 (snd (evictKeyLegacy refusing_keyring [1, 2, 3, 4, 5, 6, 7, 8] world0)))"
    by (rule conjunct1)
  with e1 e2 show ?thesis by (intro conjI)
qed




section \<open>The busy-file reaper: delays, attempts and termination\<close>

lemma sleeps_append [simp]: "sleeps (xs @ ys) = sleeps xs @ sleeps ys"
  by (induction xs rule: sleeps.induct) auto

lemma sleeps_syscalls [simp]: "sleeps (syscalls evs) = sleeps evs"
  by (induction evs rule: sleeps.induct) auto

lemma sleeps_attempt_calls [simp]: "sleeps (attempt_calls fd kspec d a) = [d]"
  by (simp add: attempt_calls_def split: option.splits)

lemma sleeps_attempts:
  "length as \<le> length ds \<Longrightarrow>
   sleeps (concat (map2 (attempt_calls fd kspec) ds as)) = take (length as) ds"
proof (induction ds arbitrary: as)
  case Nil
  then show ?case by simp
next
  case (Cons d ds)
  then show ?case by (cases as) simp_all
qed

lemma backoff_from_3200: "backoff_from 3200 = [3200, 6400, 12800, 25600, 51200]"
  by code_simp

declare backoff_from.simps [simp del]

lemma attempts_over_Nil: "attempts_over fd kspec [] [] []"
  by (simp add: attempts_over_def)

lemma attempts_over_last:
  "removal_as_due a \<Longrightarrow> \<not> still_busy a \<Longrightarrow>
   attempts_over fd kspec (d # ds) [a] (attempt_calls fd kspec d a)"
  by (simp add: attempts_over_def)

lemma attempts_over_Cons:
  assumes "removal_as_due a" "still_busy a" "attempts_over fd kspec ds as calls"
  shows "attempts_over fd kspec (d # ds) (a # as) (attempt_calls fd kspec d a @ calls)"
proof (cases "as = []")
  case True
  with assms show ?thesis by (auto simp add: attempts_over_def)
next
  case False
  with assms show ?thesis by (auto simp add: attempts_over_def)
qed

text \<open>
  From any positive delay the loop returns, and its system calls are a run of attempts
  over the doubling sequence from that delay, each with the platform's replies; while
  the files stay busy every delay of the sequence is used. The induction is on the
  distance of the delay from the bound. In its step, \<open>final\<close> is an attempt that ends the
  run and \<open>continue\<close> one that leaves the files busy, so that the run goes on from the
  doubled delay.
\<close>

lemma waitForBusyFiles_loop_attempts:
  "0 < wait \<Longrightarrow>
   \<exists>w' evs as. waitForBusyFiles_loop p fd kspec ref mountpoint wait tot w = Some w' \<and>
     trace w' = trace w @ evs \<and> answered p (trace w) evs \<and>
     attempts_over fd kspec (backoff_from wait) as (syscalls evs) \<and>
     (always_busy p \<longrightarrow> length as = length (backoff_from wait))"
proof (induction "nat (51201 - wait)" arbitrary: wait tot w rule: less_induct)
  case less
  show ?case
  proof (cases "wait \<le> 51200")
    case False
    let ?evs = "[Log ERROR
      [S ''Waiting for files to close never completed.  Files using key with ref '',
       S ref, S '' were not locked!'']]"
    from False have "waitForBusyFiles_loop p fd kspec ref mountpoint wait tot w
        = Some (emit (hd ?evs) w)"
      by (subst waitForBusyFiles_loop.simps) (simp add: LOG_def)
    moreover from False have "backoff_from wait = []"
      by (subst backoff_from.simps) simp
    ultimately show ?thesis
      by (intro exI [of _ "emit (hd ?evs) w"] exI [of _ ?evs] exI [of _ "[]"])
        (simp add: attempts_over_Nil)
  next
    case True
    let ?w1 = "sleep_for wait w"
    obtain rc status where st: "on_ioctl_get_key_status p (trace ?w1) fd kspec = (rc, status)"
      by (cases "on_ioctl_get_key_status p (trace ?w1) fd kspec")
    let ?w2 = "emit (IoctlGetKeyStatus fd kspec rc status) ?w1"
    obtain rc' flags where rm: "on_ioctl_remove_key p (trace ?w2) fd kspec = (rc', flags)"
      by (cases "on_ioctl_remove_key p (trace ?w2) fd kspec")
    let ?w3 = "emit (IoctlRemoveKey fd kspec rc' flags) ?w2"
    let ?query = "[SleepFor wait, IoctlGetKeyStatus fd kspec rc status]"
    let ?removal = "?query @ [IoctlRemoveKey fd kspec rc' flags]"
    let ?warning = "Log WARNING [S ''Files still open after waiting '', N (tot + wait),
                   S ''ms.  Key with ref '', S ref, S '' still has unlocked files!'']"
    let ?unexpected = "Log ERROR [S ''Unexpected case: key with ref '', S ref,
                              S '' is still added by other users!'']"
    have bo: "backoff_from wait = wait # backoff_from (wait * 2)"
      using True less.prems by (subst backoff_from.simps) simp
    have step: "0 < wait * 2" "nat (51201 - wait * 2) < nat (51201 - wait)"
      using True less.prems by simp_all
    have t1: "trace ?w1 = trace w @ [SleepFor wait]"
      by (simp add: sleep_for_def)
    have ab_st: "rc = 0 \<and> status = FSCRYPT_KEY_STATUS_INCOMPLETELY_REMOVED" if "always_busy p"
    proof -
      from that
      have "on_ioctl_get_key_status p (trace ?w1) fd kspec
              = (0, FSCRYPT_KEY_STATUS_INCOMPLETELY_REMOVED)"
        unfolding always_busy_def by blast
      with st show ?thesis by simp
    qed
    have ab_rm: "rc' = 0 \<and> (flags AND FSCRYPT_KEY_REMOVAL_STATUS_FLAG_OTHER_USERS \<noteq> 0 \<or>
                             flags AND FSCRYPT_KEY_REMOVAL_STATUS_FLAG_FILES_BUSY \<noteq> 0)"
      if "always_busy p"
    proof -
      from that
      have "fst (on_ioctl_remove_key p (trace ?w2) fd kspec) = 0 \<and>
        (snd (on_ioctl_remove_key p (trace ?w2) fd kspec)
            AND FSCRYPT_KEY_REMOVAL_STATUS_FLAG_OTHER_USERS \<noteq> 0 \<or>
         snd (on_ioctl_remove_key p (trace ?w2) fd kspec)
            AND FSCRYPT_KEY_REMOVAL_STATUS_FLAG_FILES_BUSY \<noteq> 0)"
        unfolding always_busy_def by blast
      with rm show ?thesis by simp
    qed
    have final: ?thesis
      if run: "waitForBusyFiles_loop p fd kspec ref mountpoint wait tot w = Some w'"
        and tr: "trace w' = trace w @ evs" and an: "answered p (trace w) evs"
        and calls: "syscalls evs = attempt_calls fd kspec wait a"
        and due: "removal_as_due a" and nb: "\<not> still_busy a" and nab: "\<not> always_busy p"
      for w' evs a
    proof -
      from due nb have "attempts_over fd kspec (backoff_from wait) [a] (syscalls evs)"
        unfolding bo calls by (rule attempts_over_last)
      with run tr an nab show ?thesis by blast
    qed
    have continue: ?thesis
      if run: "waitForBusyFiles_loop p fd kspec ref mountpoint wait tot w
                 = waitForBusyFiles_loop p fd kspec ref mountpoint (wait * 2) (tot + wait) w4"
        and tr: "trace w4 = trace w @ evs" and an: "answered p (trace w) evs"
        and calls: "syscalls evs = attempt_calls fd kspec wait a"
        and due: "removal_as_due a" and sb: "still_busy a"
      for w4 evs a
    proof -
      from less.hyps [OF step(2) step(1), of "tot + wait" w4]
      obtain w' evs' as where ih:
        "waitForBusyFiles_loop p fd kspec ref mountpoint (wait * 2) (tot + wait) w4 = Some w'"
        "trace w' = trace w4 @ evs'" "answered p (trace w4) evs'"
        "attempts_over fd kspec (backoff_from (wait * 2)) as (syscalls evs')"
        "always_busy p \<longrightarrow> length as = length (backoff_from (wait * 2))"
        by blast
      have "waitForBusyFiles_loop p fd kspec ref mountpoint wait tot w = Some w'"
        using run ih(1) by simp
      moreover have "trace w' = trace w @ (evs @ evs')"
        using tr ih(2) by simp
      moreover have "answered p (trace w) (evs @ evs')"
        using an ih(3) tr by simp
      moreover have "attempts_over fd kspec (backoff_from wait) (a # as) (syscalls (evs @ evs'))"
        unfolding bo using attempts_over_Cons [OF due sb ih(4)] calls by simp
      moreover have "always_busy p \<longrightarrow> length (a # as) = length (backoff_from wait)"
        using ih(5) bo by simp
      ultimately show ?thesis by blast
    qed
    consider
        (fail_status) "rc \<noteq> 0"
      | (changed) "rc = 0" "status \<noteq> FSCRYPT_KEY_STATUS_INCOMPLETELY_REMOVED"
      | (fail_remove) "rc = 0" "status = FSCRYPT_KEY_STATUS_INCOMPLETELY_REMOVED" "rc' \<noteq> 0"
      | (other_users) "rc = 0" "status = FSCRYPT_KEY_STATUS_INCOMPLETELY_REMOVED" "rc' = 0"
          "flags AND FSCRYPT_KEY_REMOVAL_STATUS_FLAG_OTHER_USERS \<noteq> 0"
      | (cleared) "rc = 0" "status = FSCRYPT_KEY_STATUS_INCOMPLETELY_REMOVED" "rc' = 0"
          "flags AND FSCRYPT_KEY_REMOVAL_STATUS_FLAG_OTHER_USERS = 0"
          "flags AND FSCRYPT_KEY_REMOVAL_STATUS_FLAG_FILES_BUSY = 0"
      | (busy) "rc = 0" "status = FSCRYPT_KEY_STATUS_INCOMPLETELY_REMOVED" "rc' = 0"
          "flags AND FSCRYPT_KEY_REMOVAL_STATUS_FLAG_OTHER_USERS = 0"
          "flags AND FSCRYPT_KEY_REMOVAL_STATUS_FLAG_FILES_BUSY \<noteq> 0"
      by blast
    then show ?thesis
    proof cases
      case fail_status
      let ?line = "PLog ERROR [S ''Failed to get status for fscrypt key with ref '', S ref,
                               S '' from '', S mountpoint]"
      show ?thesis
      proof (rule final [of "emit ?line ?w2" "?query @ [?line]" "((rc, status), None)"])
        show "waitForBusyFiles_loop p fd kspec ref mountpoint wait tot w = Some (emit ?line ?w2)"
          using True fail_status st
          by (subst waitForBusyFiles_loop.simps)
            (simp add: ioctl_get_key_status_def PLOG_def Let_def)
        show "trace (emit ?line ?w2) = trace w @ (?query @ [?line])"
          by (simp add: t1)
        show "answered p (trace w) (?query @ [?line])"
          using st by (simp add: t1)
        show "syscalls (?query @ [?line]) = attempt_calls fd kspec wait ((rc, status), None)"
          by (simp add: attempt_calls_def)
        show "removal_as_due ((rc, status), None)"
          using fail_status by (simp add: removal_as_due_def)
        show "\<not> still_busy ((rc, status), None)"
          by (simp add: still_busy_def)
        show "\<not> always_busy p"
          using fail_status ab_st by blast
      qed
    next
      case changed
      let ?line = "Log DEBUG
          [S ''Key status changed, cancelling busy file cleanup for key with ref '',
           S ref, S ''.'']"
      show ?thesis
      proof (rule final [of "emit ?line ?w2" "?query @ [?line]" "((rc, status), None)"])
        show "waitForBusyFiles_loop p fd kspec ref mountpoint wait tot w = Some (emit ?line ?w2)"
          using True changed st
          by (subst waitForBusyFiles_loop.simps)
            (simp add: ioctl_get_key_status_def LOG_def Let_def)
        show "trace (emit ?line ?w2) = trace w @ (?query @ [?line])"
          by (simp add: t1)
        show "answered p (trace w) (?query @ [?line])"
          using st by (simp add: t1)
        show "syscalls (?query @ [?line]) = attempt_calls fd kspec wait ((rc, status), None)"
          by (simp add: attempt_calls_def)
        show "removal_as_due ((rc, status), None)"
          using changed by (simp add: removal_as_due_def)
        show "\<not> still_busy ((rc, status), None)"
          by (simp add: still_busy_def)
        show "\<not> always_busy p"
          using changed ab_st by blast
      qed
    next
      case fail_remove
      let ?line = "PLog ERROR [S ''Failed to clean up busy files for fscrypt key with ref '',
                               S ref, S '' from '', S mountpoint]"
      show ?thesis
      proof (rule final [of "emit ?line ?w3" "?removal @ [?line]"
            "((rc, status), Some (rc', flags))"])
        show "waitForBusyFiles_loop p fd kspec ref mountpoint wait tot w = Some (emit ?line ?w3)"
          using True fail_remove st rm
          by (subst waitForBusyFiles_loop.simps)
            (simp add: ioctl_get_key_status_def ioctl_remove_key_def PLOG_def Let_def)
        show "trace (emit ?line ?w3) = trace w @ (?removal @ [?line])"
          by (simp add: t1)
        show "answered p (trace w) (?removal @ [?line])"
          using st rm by (simp add: t1)
        show "syscalls (?removal @ [?line])
                = attempt_calls fd kspec wait ((rc, status), Some (rc', flags))"
          by (simp add: attempt_calls_def)
        show "removal_as_due ((rc, status), Some (rc', flags))"
          using fail_remove by (simp add: removal_as_due_def)
        show "\<not> still_busy ((rc, status), Some (rc', flags))"
          using fail_remove by (simp add: still_busy_def)
        show "\<not> always_busy p"
          using fail_remove ab_rm by blast
      qed
    next
      case cleared
      let ?line = "Log INFO [S ''Successfully cleaned up busy files for key with ref '',
                             S ref, S ''.  After waiting '', N (tot + wait), S ''ms.'']"
      show ?thesis
      proof (rule final [of "emit ?line ?w3" "?removal @ [?line]"
            "((rc, status), Some (rc', flags))"])
        show "waitForBusyFiles_loop p fd kspec ref mountpoint wait tot w = Some (emit ?line ?w3)"
          using True cleared st rm
          by (subst waitForBusyFiles_loop.simps)
            (simp add: ioctl_get_key_status_def ioctl_remove_key_def LOG_def Let_def)
        show "trace (emit ?line ?w3) = trace w @ (?removal @ [?line])"
          by (simp add: t1)
        show "answered p (trace w) (?removal @ [?line])"
          using st rm by (simp add: t1)
        show "syscalls (?removal @ [?line])
                = attempt_calls fd kspec wait ((rc, status), Some (rc', flags))"
          by (simp add: attempt_calls_def)
        show "removal_as_due ((rc, status), Some (rc', flags))"
          using cleared by (simp add: removal_as_due_def)
        show "\<not> still_busy ((rc, status), Some (rc', flags))"
          using cleared by (simp add: still_busy_def)
        show "\<not> always_busy p"
          using cleared ab_rm by blast
      qed
    next
      case other_users
      let ?w4 = "emit ?warning (emit ?unexpected ?w3)"
      show ?thesis
      proof (rule continue [of ?w4 "?removal @ [?unexpected, ?warning]"
            "((rc, status), Some (rc', flags))"])
        show "waitForBusyFiles_loop p fd kspec ref mountpoint wait tot w
                = waitForBusyFiles_loop p fd kspec ref mountpoint (wait * 2) (tot + wait) ?w4"
          using True other_users st rm
          by (subst waitForBusyFiles_loop.simps)
            (simp add: ioctl_get_key_status_def ioctl_remove_key_def LOG_def Let_def)
        show "trace ?w4 = trace w @ (?removal @ [?unexpected, ?warning])"
          by (simp add: t1)
        show "answered p (trace w) (?removal @ [?unexpected, ?warning])"
          using st rm by (simp add: t1)
        show "syscalls (?removal @ [?unexpected, ?warning])
                = attempt_calls fd kspec wait ((rc, status), Some (rc', flags))"
          by (simp add: attempt_calls_def)
        show "removal_as_due ((rc, status), Some (rc', flags))"
          using other_users by (simp add: removal_as_due_def)
        show "still_busy ((rc, status), Some (rc', flags))"
          using other_users by (simp add: still_busy_def)
      qed
    next
      case busy
      let ?w4 = "emit ?warning ?w3"
      show ?thesis
      proof (rule continue [of ?w4 "?removal @ [?warning]" "((rc, status), Some (rc', flags))"])
        show "waitForBusyFiles_loop p fd kspec ref mountpoint wait tot w
                = waitForBusyFiles_loop p fd kspec ref mountpoint (wait * 2) (tot + wait) ?w4"
          using True busy st rm
          by (subst waitForBusyFiles_loop.simps)
            (simp add: ioctl_get_key_status_def ioctl_remove_key_def LOG_def Let_def)
        show "trace ?w4 = trace w @ (?removal @ [?warning])"
          by (simp add: t1)
        show "answered p (trace w) (?removal @ [?warning])"
          using st rm by (simp add: t1)
        show "syscalls (?removal @ [?warning])
                = attempt_calls fd kspec wait ((rc, status), Some (rc', flags))"
          by (simp add: attempt_calls_def)
        show "removal_as_due ((rc, status), Some (rc', flags))"
          using busy by (simp add: removal_as_due_def)
        show "still_busy ((rc, status), Some (rc', flags))"
          using busy by (simp add: still_busy_def)
      qed
    qed
  qed
qed

text \<open>
  C2. Every run of \<open>waitForBusyFiles\<close> returns, and every system call in it carries the
  platform's reply. When the mountpoint does not open, the open is its only system call.
  Otherwise the system calls after the open are between one and five attempts \<open>as\<close>, the
  i-th with the i-th of the delays 3200, 6400, 12800, 25600, 51200 ms: an attempt sleeps
  for its delay, queries the key status and, exactly when the query succeeds with
  "incompletely removed", issues the removal; a further attempt follows exactly when the
  removal succeeds with the other-users or the files-busy flag set and fewer than five
  attempts were made. So the delays slept for are the first \<open>length as\<close> of the five, no
  system call follows the last attempt, and when the files stay busy all five are used.
\<close>

theorem waitForBusyFiles_backoff:
  assumes "fd = on_open p (trace w) mountpoint"
  shows "\<exists>w' as. waitForBusyFiles p kspec ref mountpoint w = Some w' \<and>
     answered p (trace w) (added w w') \<and>
     (fd = - 1 \<longrightarrow> syscalls (added w w') = [Open mountpoint fd]) \<and>
     (fd \<noteq> - 1 \<longrightarrow>
        1 \<le> length as \<and> length as \<le> 5 \<and>
        syscalls (added w w') =
          Open mountpoint fd #
          concat (map2 (attempt_calls fd kspec) [3200, 6400, 12800, 25600, 51200] as) \<and>
        sleeps (added w w') = take (length as) [3200, 6400, 12800, 25600, 51200] \<and>
        (\<forall>a \<in> set as. removal_as_due a) \<and>
        (\<forall>a \<in> set (butlast as). still_busy a) \<and>
        (length as < 5 \<longrightarrow> \<not> still_busy (last as)) \<and>
        (always_busy p \<longrightarrow> length as = 5))"
proof (cases "fd = - 1")
  case True
  let ?evs = "[Open mountpoint fd,
               PLog ERROR [S ''Failed to open '', S mountpoint, S '' to evict key'']]"
  let ?w' = "emit (PLog ERROR [S ''Failed to open '', S mountpoint, S '' to evict key''])
               (emit (Open mountpoint fd) w)"
  from True assms have "waitForBusyFiles p kspec ref mountpoint w = Some ?w'"
    by (simp add: waitForBusyFiles_def sys_open_def PLOG_def Let_def)
  moreover have "added w ?w' = ?evs" by simp
  ultimately show ?thesis
    using True assms by (intro exI [of _ ?w'] exI [of _ "[]"]) simp
next
  case False
  let ?ds = "[3200, 6400, 12800, 25600, 51200] :: int list"
  let ?w1 = "emit (Open mountpoint fd) w"
  from waitForBusyFiles_loop_attempts [of 3200 p fd kspec ref mountpoint 0 ?w1]
  obtain w' evs as where l:
    "waitForBusyFiles_loop p fd kspec ref mountpoint 3200 0 ?w1 = Some w'"
    "trace w' = trace ?w1 @ evs" "answered p (trace ?w1) evs"
    "attempts_over fd kspec ?ds as (syscalls evs)"
    "always_busy p \<longrightarrow> length as = length ?ds"
    by (auto simp add: backoff_from_3200)
  from l(1) False assms have run: "waitForBusyFiles p kspec ref mountpoint w = Some w'"
    by (simp add: waitForBusyFiles_def sys_open_def Let_def)
  from l(2) have a: "added w w' = Open mountpoint fd # evs"
    by simp
  from l(4) have as: "length as \<le> 5" "as \<noteq> []"
    "syscalls evs = concat (map2 (attempt_calls fd kspec) ?ds as)"
    "\<forall>a \<in> set as. removal_as_due a" "\<forall>a \<in> set (butlast as). still_busy a"
    "length as < 5 \<longrightarrow> \<not> still_busy (last as)"
    by (simp_all add: attempts_over_def)
  have "answered p (trace w) (added w w')"
    unfolding a using l(3) assms by simp
  moreover have "1 \<le> length as"
    using as(2) by (simp add: Suc_le_eq)
  moreover have "syscalls (added w w') =
      Open mountpoint fd # concat (map2 (attempt_calls fd kspec) ?ds as)"
    unfolding a using as(3) by simp
  moreover have "sleeps (added w w') = take (length as) ?ds"
  proof -
    have "sleeps (added w w') = sleeps (syscalls evs)"
      unfolding a by simp
    also have "\<dots> = take (length as) ?ds"
      unfolding as(3) using as(1) by (intro sleeps_attempts) simp
    finally show ?thesis .
  qed
  moreover have "always_busy p \<longrightarrow> length as = 5"
    using l(5) by simp
  ultimately show ?thesis
    using run False as(1,4,5,6) by (intro exI [of _ w'] exI [of _ as]) simp
qed

lemma always_busy_busy_platform: "always_busy busy_platform"
  by (simp add: always_busy_def busy_platform_def calm_platform_def
      FSCRYPT_KEY_REMOVAL_STATUS_FLAG_FILES_BUSY_def)

theorem waitForBusyFiles_backoff_witness:
  "waitForBusyFiles busy_platform zero_key_specifier ''ab'' ''/mnt'' world0 \<noteq> None \<and>
   answered busy_platform (trace world0)
     (added world0 (the (waitForBusyFiles busy_platform zero_key_specifier ''ab'' ''/mnt''
                           world0))) \<and>
   sleeps (added world0 (the (waitForBusyFiles busy_platform zero_key_specifier ''ab'' ''/mnt''
                                world0)))
     = [3200, 6400, 12800, 25600, 51200] \<and>
   syscalls (added world0
      (the (waitForBusyFiles calm_platform zero_key_specifier ''ab'' ''/mnt'' world0)))
     = [Open ''/mnt'' 3, SleepFor 3200,
        IoctlGetKeyStatus 3 zero_key_specifier 0 FSCRYPT_KEY_STATUS_INCOMPLETELY_REMOVED,
        IoctlRemoveKey 3 zero_key_specifier 0 0]"
proof -
  have calm: "syscalls (added world0
      (the (waitForBusyFiles calm_platform zero_key_specifier ''ab'' ''/mnt'' world0)))
     = [Open ''/mnt'' 3, SleepFor 3200,
        IoctlGetKeyStatus 3 zero_key_specifier 0 FSCRYPT_KEY_STATUS_INCOMPLETELY_REMOVED,
        IoctlRemoveKey 3 zero_key_specifier 0 0]"
    apply (simp add: waitForBusyFiles_def sys_open_def calm_platform_def world0_def emit_def)
    apply (subst waitForBusyFiles_loop.simps)
    apply (simp add: ioctl_get_key_status_def ioctl_remove_key_def sleep_for_def LOG_def
        emit_def Let_def added_def FSCRYPT_KEY_REMOVAL_STATUS_FLAG_OTHER_USERS_def
        FSCRYPT_KEY_REMOVAL_STATUS_FLAG_FILES_BUSY_def)
    done
  have h: "(3::int) = on_open busy_platform (trace world0) ''/mnt''"
    by (simp add: busy_platform_def calm_platform_def)
  from waitForBusyFiles_backoff [OF h, of zero_key_specifier "''ab''"] always_busy_busy_platform
  have "waitForBusyFiles busy_platform zero_key_specifier ''ab'' ''/mnt'' world0 \<noteq> None \<and>
   answered busy_platform (trace world0)
     (added world0 (the (waitForBusyFiles busy_platform zero_key_specifier ''ab'' ''/mnt''
                           world0))) \<and>
   sleeps (added world0 (the (waitForBusyFiles busy_platform zero_key_specifier ''ab'' ''/mnt''
                                world0)))
     = [3200, 6400, 12800, 25600, 51200]"
    by auto
  with calm show ?thesis by (intro conjI) simp_all
qed

section \<open>Evicting a key: what tells the outcomes apart\<close>

lemma remove_key_calls_append [simp]:
  "remove_key_calls (xs @ ys) = remove_key_calls xs @ remove_key_calls ys"
  by (induction xs rule: remove_key_calls.induct) auto

lemma error_logs_append [simp]: "error_logs (xs @ ys) = error_logs xs @ error_logs ys"
  by (induction xs rule: error_logs.induct) auto

lemma spawned_append [simp]: "spawned (xs @ ys) = spawned xs @ spawned ys"
  by (induction xs rule: spawned.induct) auto

lemma remove_key_calls_syscalls [simp]: "remove_key_calls (syscalls evs) = remove_key_calls evs"
  by (induction evs rule: remove_key_calls.induct) auto

lemma spawned_syscalls [simp]: "spawned (syscalls evs) = spawned evs"
  by (induction evs rule: spawned.induct) auto

lemma isFsKeyringSupported_quiet:
  assumes "isFsKeyringSupported p w = (b, w1)"
  shows "\<exists>evs. trace w1 = trace w @ evs \<and> remove_key_calls evs = [] \<and> spawned evs = []"
  using assms
  by (auto simp add: isFsKeyringSupported_def isFsKeyringSupportedImpl_def sys_open_def
      ioctl_probe_def LOG_def PLOG_def Let_def split: option.splits if_splits prod.splits)

lemma evictKeyLegacy_loop_no_ioctl:
  "evictKeyLegacy_loop p raw_ref kr success names w = (ok, w') \<Longrightarrow>
   \<exists>evs. trace w' = trace w @ evs \<and> remove_key_calls evs = [] \<and> spawned evs = []"
proof (induction names arbitrary: success w)
  case Nil
  then show ?case by simp
next
  case (Cons name names)
  from Cons.prems obtain success' w2 evs2 where
    "evictKeyLegacy_loop p raw_ref kr success' names w2 = (ok, w')"
    "trace w2 = trace w @ evs2" "remove_key_calls evs2 = []" "spawned evs2 = []"
    by (auto simp add: keyctl_search_def keyctl_unlink_def LOG_def PLOG_def Let_def
        split: if_splits)
  with Cons.IH show ?case by fastforce
qed

lemma evictKeyLegacy_no_ioctl:
  assumes "evictKeyLegacy p raw_ref w = (ok, w')"
  shows "\<exists>evs. trace w' = trace w @ evs \<and> remove_key_calls evs = [] \<and> spawned evs = []"
proof -
  from assms consider
      "trace w' = trace w @ [KeyctlSearch KEY_SPEC_SESSION_KEYRING ''keyring'' ''fscrypt''
          (on_keyctl_search p (trace w) KEY_SPEC_SESSION_KEYRING ''keyring'' ''fscrypt''),
          PLog ERROR [S ''Unable to find device keyring'']]"
    | kr success where "evictKeyLegacy_loop p raw_ref kr success NAME_PREFIXES
          (emit (KeyctlSearch KEY_SPEC_SESSION_KEYRING ''keyring'' ''fscrypt''
             (on_keyctl_search p (trace w) KEY_SPEC_SESSION_KEYRING ''keyring'' ''fscrypt'')) w)
          = (ok, w')"
    by (auto simp add: evictKeyLegacy_def fscryptKeyring_def keyctl_search_def PLOG_def Let_def
        split: if_splits)
  then show ?thesis
  proof cases
    case 1
    then show ?thesis by simp
  next
    case 2
    from evictKeyLegacy_loop_no_ioctl [OF this] show ?thesis by fastforce
  qed
qed

lemma buildKeySpecifier_world:
  "fst (buildKeySpecifier spec policy w) = fst (buildKeySpecifier spec policy w0)"
  by (simp add: buildKeySpecifier_def)

lemma buildKeySpecifier_trace:
  "\<exists>evs. trace (snd (buildKeySpecifier spec policy w)) = trace w @ evs \<and> syscalls evs = []"
  by (simp add: buildKeySpecifier_def LOG_def)

lemma buildKeySpecifier_success_world:
  "fst (fst (buildKeySpecifier spec policy w)) \<Longrightarrow> snd (buildKeySpecifier spec policy w) = w"
  by (simp add: buildKeySpecifier_def split: if_splits)

text \<open>
  The part of \<open>evictKey\<close> after the test for the legacy keyring, from the replies to the
  open and to the removal.
\<close>

lemma evictKey_ioctl_outcomes:
  assumes "evictKey_ioctl p mountpoint policy w0 = (ok, w')"
    and "fd = on_open p (trace w0) mountpoint"
    and "built = fst (fst (buildKeySpecifier zero_key_specifier policy w))"
    and "spec = snd (fst (buildKeySpecifier zero_key_specifier policy w))"
    and "removal = on_ioctl_remove_key p (trace w0 @ [Open mountpoint fd]) fd spec"
    and "ref = keyrefstring (key_raw_ref policy)"
  shows "(\<exists>evs. trace w' = trace w0 @ evs) \<and>
         (fd = - 1 \<or> \<not> built \<longrightarrow>
           \<not> ok \<and> syscalls (added w0 w') = [Open mountpoint fd]) \<and>
         (fd \<noteq> - 1 \<and> built \<longrightarrow>
           (ok \<longleftrightarrow> fst removal = 0) \<and>
           syscalls (added w0 w') =
             [Open mountpoint fd, IoctlRemoveKey fd spec (fst removal) (snd removal)] @
             (if fst removal = 0 \<and>
                 snd removal AND FSCRYPT_KEY_REMOVAL_STATUS_FLAG_OTHER_USERS = 0 \<and>
                 snd removal AND FSCRYPT_KEY_REMOVAL_STATUS_FLAG_FILES_BUSY \<noteq> 0
              then [SpawnThread spec ref mountpoint] else []) \<and>
           error_logs (added w0 w') =
             (if fst removal = 0 \<and>
                 snd removal AND FSCRYPT_KEY_REMOVAL_STATUS_FLAG_OTHER_USERS \<noteq> 0
              then [other_users_msg ref] else []))"
proof -
  let ?w1 = "emit (Open mountpoint fd) w0"
  have b: "fst (buildKeySpecifier zero_key_specifier policy ?w1) = (built, spec)"
    using assms(3,4) buildKeySpecifier_world [of zero_key_specifier policy ?w1 w] by simp
  show ?thesis
  proof (cases "fd = - 1")
    case True
    with assms(1,2) show ?thesis
      by (auto simp add: evictKey_ioctl_def sys_open_def PLOG_def Let_def)
  next
    case open_ok: False
    show ?thesis
    proof (cases built)
      case False
      from buildKeySpecifier_trace [of zero_key_specifier policy ?w1] obtain evs where
        "trace (snd (buildKeySpecifier zero_key_specifier policy ?w1)) = trace ?w1 @ evs"
        "syscalls evs = []"
        by blast
      moreover from assms(1,2) open_ok b False
      have "\<not> ok \<and> w' = snd (buildKeySpecifier zero_key_specifier policy ?w1)"
        by (auto simp add: evictKey_ioctl_def sys_open_def Let_def split: prod.splits)
      ultimately have "\<not> ok \<and> trace w' = trace w0 @ Open mountpoint fd # evs \<and>
          syscalls evs = []"
        by simp
      with False show ?thesis by simp
    next
      case True
      with b have w2: "snd (buildKeySpecifier zero_key_specifier policy ?w1) = ?w1"
        using buildKeySpecifier_success_world [of zero_key_specifier policy ?w1] by simp
      with b True have bk: "buildKeySpecifier zero_key_specifier policy ?w1 = ((True, spec), ?w1)"
        by (simp add: prod_eq_iff)
      obtain rc flags where rm: "removal = (rc, flags)"
        by (cases removal)
      have op: "on_open p (trace w0) mountpoint = fd"
        using assms(2) by simp
      have rm': "on_ioctl_remove_key p (trace w0 @ [Open mountpoint fd]) fd spec = (rc, flags)"
        using rm assms(5) by simp
      from assms(1) open_ok bk True show ?thesis
        unfolding rm assms(6)
        by (auto simp add: evictKey_ioctl_def sys_open_def ioctl_remove_key_def LOG_def PLOG_def
            Let_def other_users_msg_def op rm' split: if_splits)
    qed
  qed
qed

text \<open>The events of the capability test, and the path that \<open>evictKey\<close> takes after it.\<close>

lemma capability_quiet:
  assumes "w0 = (if version (options policy) = 1 then snd (isFsKeyringSupported p w) else w)"
  shows "\<exists>evs0. trace w0 = trace w @ evs0 \<and> remove_key_calls evs0 = [] \<and> spawned evs0 = []"
proof (cases "version (options policy) = 1")
  case True
  with assms have "isFsKeyringSupported p w = (fst (isFsKeyringSupported p w), w0)"
    by simp
  from isFsKeyringSupported_quiet [OF this] show ?thesis .
next
  case False
  with assms show ?thesis by simp
qed

lemma evictKey_paths:
  assumes "evictKey p mountpoint policy w = (ok, w')"
    and "legacy = (version (options policy) = 1 \<and> \<not> fst (isFsKeyringSupported p w))"
    and "w0 = (if version (options policy) = 1 then snd (isFsKeyringSupported p w) else w)"
  shows "(if legacy then evictKeyLegacy p (key_raw_ref policy) w0
          else evictKey_ioctl p mountpoint policy w0) = (ok, w')"
proof (cases "version (options policy) = 1")
  case True
  with assms show ?thesis
    by (auto simp add: evictKey_def Let_def split_beta split: if_splits)
next
  case False
  with assms show ?thesis
    by (simp add: evictKey_def Let_def)
qed

text \<open>
  C1, as the code has it. \<open>legacy\<close> says that the policy has version 1 and the kernel lacks
  the keyring ioctls, \<open>w0\<close> is the world after that test, \<open>fd\<close> the reply to the open of the
  mountpoint, \<open>built\<close> and \<open>spec\<close> the result of building the specifier from the policy,
  \<open>removal\<close> the platform's reply to the remove-key ioctl on \<open>fd\<close> and \<open>spec\<close>, and \<open>busy\<close> says
  that this reply is a success with the files-busy flag and without the other-users flag.

  On the legacy path \<open>evictKey\<close> is \<open>evictKeyLegacy\<close>: no remove-key ioctl, no thread. On the
  other path, when the open fails or the specifier does not build, it returns false, the
  open is its only system call, and there is no remove-key ioctl and no thread. When the
  mountpoint opens and the specifier builds, it issues the remove-key ioctl once, on the
  specifier built from the policy, and returns true exactly when the ioctl returns 0, in
  each of the three outcomes alike. What tells the outcomes apart is what else happens:
  with the other-users flag set, the error line and no thread; otherwise with the
  files-busy flag set, no error line and the reaper thread started with the specifier,
  the hex reference and the mountpoint; otherwise neither.
\<close>

theorem evictKey_outcomes:
  assumes "evictKey p mountpoint policy w = (ok, w')"
    and "legacy = (version (options policy) = 1 \<and> \<not> fst (isFsKeyringSupported p w))"
    and "w0 = (if version (options policy) = 1 then snd (isFsKeyringSupported p w) else w)"
    and "fd = on_open p (trace w0) mountpoint"
    and "built = fst (fst (buildKeySpecifier zero_key_specifier policy w))"
    and "spec = snd (fst (buildKeySpecifier zero_key_specifier policy w))"
    and "removal = on_ioctl_remove_key p (trace w0 @ [Open mountpoint fd]) fd spec"
    and "ref = keyrefstring (key_raw_ref policy)"
    and "busy = (fst removal = 0 \<and>
                 snd removal AND FSCRYPT_KEY_REMOVAL_STATUS_FLAG_OTHER_USERS = 0 \<and>
                 snd removal AND FSCRYPT_KEY_REMOVAL_STATUS_FLAG_FILES_BUSY \<noteq> 0)"
  shows "(legacy \<longrightarrow>
           (ok, w') = evictKeyLegacy p (key_raw_ref policy) w0 \<and>
           remove_key_calls (added w w') = [] \<and> spawned (added w w') = []) \<and>
         (\<not> legacy \<and> (fd = - 1 \<or> \<not> built) \<longrightarrow>
           \<not> ok \<and> syscalls (added w0 w') = [Open mountpoint fd] \<and>
           remove_key_calls (added w w') = [] \<and> spawned (added w w') = []) \<and>
         (\<not> legacy \<and> fd \<noteq> - 1 \<and> built \<longrightarrow>
           (ok \<longleftrightarrow> fst removal = 0) \<and>
           syscalls (added w0 w') =
             [Open mountpoint fd, IoctlRemoveKey fd spec (fst removal) (snd removal)] @
             (if busy then [SpawnThread spec ref mountpoint] else []) \<and>
           remove_key_calls (added w w') = [(spec, fst removal, snd removal)] \<and>
           spawned (added w w') = (if busy then [(spec, ref, mountpoint)] else []) \<and>
           error_logs (added w0 w') =
             (if fst removal = 0 \<and>
                 snd removal AND FSCRYPT_KEY_REMOVAL_STATUS_FLAG_OTHER_USERS \<noteq> 0
              then [other_users_msg ref] else []))"
proof -
  from capability_quiet [OF assms(3)] obtain evs0 where evs0:
    "trace w0 = trace w @ evs0" "remove_key_calls evs0 = []" "spawned evs0 = []"
    by blast
  note path = evictKey_paths [OF assms(1-3)]
  show ?thesis
  proof (cases legacy)
    case True
    with path have l: "evictKeyLegacy p (key_raw_ref policy) w0 = (ok, w')"
      by simp
    from evictKeyLegacy_no_ioctl [OF l] obtain evs where
      "trace w' = trace w0 @ evs" "remove_key_calls evs = []" "spawned evs = []"
      by blast
    with evs0 have "added w w' = evs0 @ evs" "remove_key_calls (evs0 @ evs) = []"
      "spawned (evs0 @ evs) = []"
      by simp_all
    then have "remove_key_calls (added w w') = []" "spawned (added w w') = []"
      by simp_all
    with True l show ?thesis by simp
  next
    case False
    with path have m: "evictKey_ioctl p mountpoint policy w0 = (ok, w')"
      by simp
    note o = evictKey_ioctl_outcomes [OF m assms(4-8)]
    from o obtain evs where evs: "trace w' = trace w0 @ evs" by blast
    then have a: "added w0 w' = evs" "added w w' = evs0 @ evs"
      using evs0(1) by simp_all
    have proj: "remove_key_calls (added w w') = remove_key_calls (syscalls (added w0 w'))"
      "spawned (added w w') = spawned (syscalls (added w0 w'))"
      unfolding a using evs0(2,3) by simp_all
    show ?thesis
    proof (cases "fd \<noteq> - 1 \<and> built")
      case closed: False
      with o have c: "\<not> ok" "syscalls (added w0 w') = [Open mountpoint fd]" by auto
      have "remove_key_calls (added w w') = []" "spawned (added w w') = []"
        unfolding proj c(2) by simp_all
      with closed False c show ?thesis by simp
    next
      case True
      with o have r: "ok \<longleftrightarrow> fst removal = 0"
        "syscalls (added w0 w') =
             [Open mountpoint fd, IoctlRemoveKey fd spec (fst removal) (snd removal)] @
             (if busy then [SpawnThread spec ref mountpoint] else [])"
        "error_logs (added w0 w') =
             (if fst removal = 0 \<and>
                 snd removal AND FSCRYPT_KEY_REMOVAL_STATUS_FLAG_OTHER_USERS \<noteq> 0
              then [other_users_msg ref] else [])"
        unfolding assms(9) by simp_all
      have "remove_key_calls (added w w') = [(spec, fst removal, snd removal)]"
        "spawned (added w w') = (if busy then [(spec, ref, mountpoint)] else [])"
        unfolding proj r(2) by simp_all
      with True False r show ?thesis by simp
    qed
  qed
qed

text \<open>The definitions a concrete eviction unfolds.\<close>

lemmas evict_run_defs = calm_platform_def busy_platform_def shared_platform_def old_kernel_def
  closed_mountpoint_def world0_def policy_v1_def policy_short_ref_def spec_v1_def evictKey_def
  evictKey_ioctl_def evictKeyLegacy_def isFsKeyringSupported_def isFsKeyringSupportedImpl_def
  buildKeySpecifier_def fscryptKeyring_def sys_open_def ioctl_probe_def ioctl_remove_key_def
  keyctl_search_def keyctl_unlink_def key_serial_t_def NAME_PREFIXES_def buildLegacyKeyName_def
  keyrefstring_def hex_digit_def LOG_def PLOG_def emit_def added_def Let_def memcpy_def
  write_into_def zero_key_specifier_def FSCRYPT_KEY_DESCRIPTOR_SIZE_def
  FSCRYPT_KEY_IDENTIFIER_SIZE_def FSCRYPT_KEY_SPEC_TYPE_DESCRIPTOR_def ENOTTY_def EFAULT_def
  KEY_SPEC_SESSION_KEYRING_def FSCRYPT_KEY_REMOVAL_STATUS_FLAG_FILES_BUSY_def
  FSCRYPT_KEY_REMOVAL_STATUS_FLAG_OTHER_USERS_def other_users_msg_def

text \<open>
  C1, as stated, fails. On three platforms whose remove-key ioctl reports the three
  outcomes (no flag, other users, files busy) \<open>evictKey\<close> returns the same value, true. On
  a kernel without the keyring ioctls a version-1 policy is evicted with no remove-key
  ioctl at all. And no remove-key ioctl is issued, with false returned, when the
  mountpoint cannot be opened or when the policy's reference has not the size its
  version requires.
\<close>

theorem evictKey_result_counterexample:
  "fst (evictKey calm_platform ''/mnt'' policy_v1 world0) = True \<and>
   fst (evictKey shared_platform ''/mnt'' policy_v1 world0) = True \<and>
   fst (evictKey busy_platform ''/mnt'' policy_v1 world0) = True \<and>
   remove_key_calls (added world0 (snd (evictKey calm_platform ''/mnt'' policy_v1 world0)))
     = [(spec_v1, 0, 0)] \<and>
   remove_key_calls (added world0 (snd (evictKey shared_platform ''/mnt'' policy_v1 world0)))
     = [(spec_v1, 0, FSCRYPT_KEY_REMOVAL_STATUS_FLAG_OTHER_USERS)] \<and>
   remove_key_calls (added world0 (snd (evictKey busy_platform ''/mnt'' policy_v1 world0)))
     = [(spec_v1, 0, FSCRYPT_KEY_REMOVAL_STATUS_FLAG_FILES_BUSY)] \<and>
   fst (evictKey old_kernel ''/mnt'' policy_v1 world0) = True \<and>
   remove_key_calls (added world0 (snd (evictKey old_kernel ''/mnt'' policy_v1 world0))) = [] \<and>
   fst (evictKey closed_mountpoint ''/mnt'' policy_v1 world0) = False \<and>
   remove_key_calls (added world0 (snd (evictKey closed_mountpoint ''/mnt'' policy_v1 world0)))
     = [] \<and>
   fst (evictKey calm_platform ''/mnt'' policy_short_ref world0) = False \<and>
   remove_key_calls (added world0 (snd (evictKey calm_platform ''/mnt'' policy_short_ref world0)))
     = []"
proof (intro conjI)
  show "fst (evictKey calm_platform ''/mnt'' policy_v1 world0) = True"
    by (simp add: evict_run_defs)
  show "fst (evictKey shared_platform ''/mnt'' policy_v1 world0) = True"
    by (simp add: evict_run_defs)
  show "fst (evictKey busy_platform ''/mnt'' policy_v1 world0) = True"
    by (simp add: evict_run_defs)
  show "remove_key_calls (added world0 (snd (evictKey calm_platform ''/mnt'' policy_v1 world0)))
     = [(spec_v1, 0, 0)]"
    by (simp add: evict_run_defs)
  show "remove_key_calls (added world0 (snd (evictKey shared_platform ''/mnt'' policy_v1 world0)))
     = [(spec_v1, 0, FSCRYPT_KEY_REMOVAL_STATUS_FLAG_OTHER_USERS)]"
    by (simp add: evict_run_defs)
  show "remove_key_calls (added world0 (snd (evictKey busy_platform ''/mnt'' policy_v1 world0)))
     = [(spec_v1, 0, FSCRYPT_KEY_REMOVAL_STATUS_FLAG_FILES_BUSY)]"
    by (simp add: evict_run_defs)
  show "fst (evictKey old_kernel ''/mnt'' policy_v1 world0) = True"
    by (simp add: evict_run_defs)
  show "remove_key_calls (added world0 (snd (evictKey old_kernel ''/mnt'' policy_v1 world0))) = []"
    by (simp add: evict_run_defs)
  show "fst (evictKey closed_mountpoint ''/mnt'' policy_v1 world0) = False"
    by (simp add: evict_run_defs)
  show "remove_key_calls
      (added world0 (snd (evictKey closed_mountpoint ''/mnt'' policy_v1 world0))) = []"
    by (simp add: evict_run_defs)
  show "fst (evictKey calm_platform ''/mnt'' policy_short_ref world0) = False"
    by (simp add: evict_run_defs)
  show "remove_key_calls
      (added world0 (snd (evictKey calm_platform ''/mnt'' policy_short_ref world0))) = []"
    by (simp add: evict_run_defs)
qed

theorem evictKey_outcomes_witness:
  "fst (evictKey busy_platform ''/mnt'' policy_v1 world0) \<and>
   syscalls (added (snd (isFsKeyringSupported busy_platform world0))
               (snd (evictKey busy_platform ''/mnt'' policy_v1 world0)))
     = [Open ''/mnt'' 3,
        IoctlRemoveKey 3 spec_v1 0 FSCRYPT_KEY_REMOVAL_STATUS_FLAG_FILES_BUSY,
        SpawnThread spec_v1 ''0102030405060708'' ''/mnt''] \<and>
   remove_key_calls (added world0 (snd (evictKey busy_platform ''/mnt'' policy_v1 world0)))
     = [(spec_v1, 0, FSCRYPT_KEY_REMOVAL_STATUS_FLAG_FILES_BUSY)] \<and>
   spawned (added world0 (snd (evictKey busy_platform ''/mnt'' policy_v1 world0)))
     = [(spec_v1, ''0102030405060708'', ''/mnt'')] \<and>
   error_logs (added (snd (isFsKeyringSupported busy_platform world0))
                 (snd (evictKey busy_platform ''/mnt'' policy_v1 world0))) = []"
proof -
  let ?w0 = "snd (isFsKeyringSupported busy_platform world0)"
  let ?busy = "FSCRYPT_KEY_REMOVAL_STATUS_FLAG_FILES_BUSY"
  have h2: "False = (version (options policy_v1) = 1 \<and>
                     \<not> fst (isFsKeyringSupported busy_platform world0))"
    by (simp add: evict_run_defs)
  have h3: "?w0 = (if version (options policy_v1) = 1 then ?w0 else world0)"
    by (simp add: policy_v1_def)
  have h4: "(3::int) = on_open busy_platform (trace ?w0) ''/mnt''"
    by (simp add: busy_platform_def calm_platform_def)
  have h5: "True = fst (fst (buildKeySpecifier zero_key_specifier policy_v1 world0))"
    by (simp add: evict_run_defs)
  have h6: "spec_v1 = snd (fst (buildKeySpecifier zero_key_specifier policy_v1 world0))"
    by (simp add: evict_run_defs)
  have h7: "(0, ?busy) = on_ioctl_remove_key busy_platform (trace ?w0 @ [Open ''/mnt'' 3]) 3 spec_v1"
    by (simp add: busy_platform_def calm_platform_def)
  have h8: "''0102030405060708'' = keyrefstring (key_raw_ref policy_v1)"
    by (simp add: policy_v1_def keyrefstring_def hex_digit_def)
  have h9: "True = (fst (0::int, ?busy) = 0 \<and>
                 snd (0::int, ?busy) AND FSCRYPT_KEY_REMOVAL_STATUS_FLAG_OTHER_USERS = 0 \<and>
                 snd (0::int, ?busy) AND FSCRYPT_KEY_REMOVAL_STATUS_FLAG_FILES_BUSY \<noteq> 0)"
    by (simp add: FSCRYPT_KEY_REMOVAL_STATUS_FLAG_FILES_BUSY_def
        FSCRYPT_KEY_REMOVAL_STATUS_FLAG_OTHER_USERS_def)
  have f: "?busy AND FSCRYPT_KEY_REMOVAL_STATUS_FLAG_OTHER_USERS = 0"
    by (simp add: FSCRYPT_KEY_REMOVAL_STATUS_FLAG_FILES_BUSY_def
        FSCRYPT_KEY_REMOVAL_STATUS_FLAG_OTHER_USERS_def)
  from evictKey_outcomes [OF prod.collapse [symmetric] h2 h3 h4 h5 h6 h7 h8 h9]
  show ?thesis by (simp add: f)
qed

end
